theory Spec2Isabelle
  imports Complex_Main
begin

section \<open>Engine utilities (game/engine.js)\<close>

text \<open>
  JavaScript numbers are modelled as \<^typ>\<open>real\<close> where they carry positions, velocities and
  timers, and as \<^typ>\<open>int\<close> where the code only ever produces integers (tile indices, score,
  lives, the animation frame). A thrown \<open>TypeError\<close> is the value \<open>None\<close> of an
  \<open>option\<close> result; reading an array out of range is the tile \<open>Undefined\<close>.
\<close>

definition GAME_WIDTH :: real where "GAME_WIDTH = 384"
definition GAME_HEIGHT :: real where "GAME_HEIGHT = 216"
definition TILE_SIZE :: real where "TILE_SIZE = 24"

definition clamp :: "real \<Rightarrow> real \<Rightarrow> real \<Rightarrow> real" where
  "clamp val mn mx = max mn (min mx val)"

record level =
  name :: string
  width :: int
  height :: int
  tiles :: "int list list"

text \<open>The first level. Its last two rows are the ground: 32 tiles of code 1 each.\<close>

definition level1 :: level where
  "level1 = \<lparr> name = ''Level 1: Go Go Mario!'', width = 32, height = 10, tiles = [
    [0,0,0,0,0,0,0,0,0,0,0,0,0,0,0,0,0,0,0,0,0,0,0,0,0,0,0,0,0,0,0,0],
    [0,0,0,0,0,0,0,0,0,0,0,0,0,2,0,0,0,0,0,0,0,2,0,0,0,0,0,0,0,0,0,0],
    [0,0,0,0,0,0,0,0,0,0,3,0,0,0,0,0,0,0,0,4,0,0,3,0,0,0,2,0,0,0,0,0],
    [0,0,0,2,0,0,0,0,0,2,0,0,0,0,0,0,0,0,0,0,0,2,0,0,0,3,0,0,0,0,0,0],
    [0,0,0,0,0,0,0,2,0,0,0,3,0,0,0,0,0,0,2,0,0,0,0,0,0,0,4,0,0,0,0,0],
    [0,0,0,0,0,0,3,0,0,4,0,0,2,0,0,0,0,2,0,0,0,0,0,0,0,0,0,0,3,0,0,0],
    [0,0,0,0,0,2,0,0,0,0,0,0,0,3,0,0,2,0,0,0,0,0,0,2,0,0,0,0,0,0,0,0],
    [0,0,0,0,2,0,0,0,0,4,0,3,0,0,0,4,0,0,0,3,0,0,0,0,0,0,0,0,0,2,0,5],
    replicate 32 1,
    replicate 32 1] \<rparr>"

text \<open>What an array read yields: a tile code, or \<open>undefined\<close> out of range.\<close>

datatype tile = Undefined | Tile int

definition isSolid :: "tile \<Rightarrow> bool" where
  "isSolid t = (t = Tile 1 \<or> t = Tile 2 \<or> t = Tile 5)"
definition isPlatform :: "tile \<Rightarrow> bool" where "isPlatform t = (t = Tile 2)"
definition isGround :: "tile \<Rightarrow> bool" where "isGround t = (t = Tile 1)"
definition isCoin :: "tile \<Rightarrow> bool" where "isCoin t = (t = Tile 3)"
definition isEnemy :: "tile \<Rightarrow> bool" where "isEnemy t = (t = Tile 4)"
definition isFlag :: "tile \<Rightarrow> bool" where "isFlag t = (t = Tile 5)"

text \<open>
  The objects of the game share fields: everything has \<open>x\<close> and \<open>y\<close>, boxes add \<open>w\<close> and
  \<open>h\<close>, moving boxes add \<open>dx\<close>, \<open>dy\<close> and \<open>dead\<close>.
\<close>

record pos =
  x :: real
  y :: real

record rect = pos +
  w :: real
  h :: real

definition rectsCollide :: "rect \<Rightarrow> rect \<Rightarrow> bool" where
  "rectsCollide a b =
     (x a < x b + w b \<and> x a + w a > x b \<and> y a < y b + h b \<and> y a + h a > y b)"

record phys =
  gravity :: real
  moveAccel :: real
  maxDX :: real
  maxDY :: real
  jumpVel :: real
  frictionGround :: real
  frictionAir :: real
  coyoteMs :: real
  invulnMs :: real
  enemyPatrolSpeed :: real

definition PHYS :: phys where
  "PHYS = \<lparr> gravity = 900, moveAccel = 800, maxDX = 180, maxDY = 450, jumpVel = 340,
            frictionGround = 0.78, frictionAir = 0.93, coyoteMs = 100, invulnMs = 1100,
            enemyPatrolSpeed = 60 \<rparr>"

text \<open>\<open>row[x]\<close>: the cell of a row, \<open>undefined\<close> out of range.\<close>

definition cellAt :: "int list \<Rightarrow> int \<Rightarrow> tile" where
  "cellAt row tx = (if 0 \<le> tx \<and> tx < int (length row) then Tile (row ! nat tx) else Undefined)"

text \<open>\<open>tiles[y]\<close>: the row, \<open>None\<close> when it is \<open>undefined\<close>.\<close>

definition rowAt :: "int list list \<Rightarrow> int \<Rightarrow> int list option" where
  "rowAt ts ty = (if 0 \<le> ty \<and> ty < int (length ts) then Some (ts ! nat ty) else None)"

text \<open>Tile coordinates, as \<open>findSpawns\<close> and \<open>findCoins\<close> collect them.\<close>

type_synonym tpos = "int \<times> int"

record spawns =
  player_spawn :: tpos
  enemy_spawns :: "tpos list"

text \<open>
  \<open>findSpawns\<close> walks \<open>level.tiles.length\<close> rows and \<open>level.width\<close> columns; the player's
  spawn is the constant \<open>{x: 1, y: 5}\<close>, whatever the tiles hold.
\<close>

definition scanLevel :: "(tile \<Rightarrow> bool) \<Rightarrow> level \<Rightarrow> tpos list" where
  "scanLevel P lvl =
     concat (map (\<lambda>ty. map (\<lambda>tx. (int tx, int ty))
                          (filter (\<lambda>tx. P (cellAt (tiles lvl ! ty) (int tx))) [0..<nat (width lvl)]))
                 [0..<length (tiles lvl)])"

definition findSpawns :: "level \<Rightarrow> spawns" where
  "findSpawns lvl = \<lparr> player_spawn = (1, 5), enemy_spawns = scanLevel isEnemy lvl \<rparr>"

definition findCoins :: "level \<Rightarrow> tpos list" where
  "findCoins lvl = scanLevel isCoin lvl"

definition tile2px :: "int \<Rightarrow> int \<Rightarrow> pos" where
  "tile2px tx ty = \<lparr> x = of_int tx * TILE_SIZE, y = of_int ty * TILE_SIZE \<rparr>"

definition px2tile :: "real \<Rightarrow> real \<Rightarrow> tpos" where
  "px2tile px py = (\<lfloor>px / TILE_SIZE\<rfloor>, \<lfloor>py / TILE_SIZE\<rfloor>)"

section \<open>The frame clock (hooks/useGameLoop.js)\<close>







section \<open>World state (components/Game.js)\<close>

definition initialLives :: int where "initialLives = 3"

record mob = rect +
  dx :: real
  dy :: real
  dead :: bool

text \<open>
  The player object. \<open>hitLives\<close> is the property \<open>lives\<close> that a side hit adds to the player
  object (\<open>movedY.lives = st.lives - 1\<close>); it is absent (\<open>None\<close>) until the first hit and
  is read back by \<open>movedY.lives ?? st.lives\<close>.
\<close>

record player = mob +
  dir :: int
  grounded :: bool
  jumping :: bool
  wantsJump :: bool
  coyote :: real
  invuln :: real
  animTimer :: real
  frame :: int
  respawnTimer :: real
  hitLives :: "int option"

record bounds =
  bmin :: real
  bmax :: real

record enemy = mob +
  patrolRange :: bounds

record coin = pos +
  r :: real
  collected :: bool

record state =
  level :: level
  player :: player
  camera :: pos
  enemies :: "enemy list"
  coins :: "coin list"
  collectedCoins :: "nat list"
  score :: int
  lives :: int
  win :: bool
  timer :: real
  started :: bool

definition getPlayerRect :: "player \<Rightarrow> rect" where
  "getPlayerRect p = \<lparr> x = x p, y = y p, w = w p, h = h p \<rparr>"

definition getEntityRect :: "enemy \<Rightarrow> rect" where
  "getEntityRect e = \<lparr> x = x e, y = y e, w = w e, h = h e \<rparr>"

text \<open>
  \<open>mkInitialGameState\<close> reads the constant \<open>level1\<close>; the level is a parameter of
  \<open>mkInitialGameStateOf\<close> so that the construction can be examined on other level data.
\<close>

definition mkEnemy :: "tpos \<Rightarrow> enemy" where
  "mkEnemy t = (case t of (tx, ty) \<Rightarrow>
     \<lparr> x = x (tile2px tx ty), y = y (tile2px tx ty), w = 20, h = 18,
       dx = enemyPatrolSpeed PHYS, dy = 0, dead = False,
       patrolRange = \<lparr> bmin = x (tile2px (tx - 2) 0), bmax = x (tile2px (tx + 2) 0) \<rparr> \<rparr>)"

definition mkCoin :: "tpos \<Rightarrow> coin" where
  "mkCoin t = (case t of (tx, ty) \<Rightarrow>
     \<lparr> x = x (tile2px tx ty) + 6, y = y (tile2px tx ty) + 5, r = 6, collected = False \<rparr>)"

definition mkInitialGameStateOf :: "level \<Rightarrow> state" where
  "mkInitialGameStateOf lvl =
     (let sp = findSpawns lvl; ps = player_spawn sp in
      \<lparr> level = lvl,
        player = \<lparr> x = x (tile2px (fst ps) (snd ps)), y = y (tile2px (fst ps) (snd ps)) - TILE_SIZE,
                   w = 18, h = 22, dx = 0, dy = 0, dead = False,
                   dir = 1, grounded = False, jumping = False, wantsJump = False,
                   coyote = 0, invuln = 0, animTimer = 0, frame = 0,
                   respawnTimer = 0, hitLives = None \<rparr>,
        camera = \<lparr> x = 0, y = 0 \<rparr>,
        enemies = map mkEnemy (enemy_spawns sp),
        coins = map mkCoin (findCoins lvl),
        collectedCoins = [],
        score = 0,
        lives = initialLives,
        win = False,
        timer = 0,
        started = True \<rparr>)"

definition mkInitialGameState :: state where
  "mkInitialGameState = mkInitialGameStateOf level1"

subsection \<open>Physics and collision helpers\<close>

text \<open>\<open>getTile\<close>: air outside the declared bounds; inside them \<open>level.tiles[y][x]\<close>, which
  throws when the row is missing.\<close>

definition getTile :: "level \<Rightarrow> real \<Rightarrow> real \<Rightarrow> tile option" where
  "getTile lvl px py = (case px2tile px py of (tx, ty) \<Rightarrow>
     if tx < 0 \<or> tx \<ge> width lvl \<or> ty < 0 \<or> ty \<ge> height lvl then Some (Tile 0)
     else (case rowAt (tiles lvl) ty of None \<Rightarrow> None | Some row \<Rightarrow> Some (cellAt row tx)))"

text \<open>\<open>level.tiles[ty]?.[tx]\<close>: never throws.\<close>

definition tileQ :: "level \<Rightarrow> int \<Rightarrow> int \<Rightarrow> tile" where
  "tileQ lvl ty tx = (case rowAt (tiles lvl) ty of None \<Rightarrow> Undefined | Some row \<Rightarrow> cellAt row tx)"

text \<open>The loop of \<open>tryPlayerMoveX\<close> over the rows \<open>tyTop..tyBot\<close>; it leaves at the first
  solid probe.\<close>

fun moveXLoop :: "level \<Rightarrow> player \<Rightarrow> int \<Rightarrow> player \<Rightarrow> int list \<Rightarrow> player option" where
  "moveXLoop lvl p tx np [] = Some np"
| "moveXLoop lvl p tx np (ty # tys) =
     (case getTile lvl (x np + (if dx np > 0 then w np else 0)) (y np + h p / 2) of
        None \<Rightarrow> None
      | Some t \<Rightarrow>
          if isSolid t
          then Some (np\<lparr> x := (if dx p > 0 then of_int tx * TILE_SIZE - w np
                                else of_int (tx + 1) * TILE_SIZE),
                         dx := 0 \<rparr>)
          else moveXLoop lvl p tx np tys)"

definition tryPlayerMoveX :: "level \<Rightarrow> player \<Rightarrow> real \<Rightarrow> player option" where
  "tryPlayerMoveX lvl p dt =
     (let np = p\<lparr> x := x p + dx p * dt \<rparr>;
          tx = (if dx np > 0 then \<lfloor>(x np + w np) / TILE_SIZE\<rfloor> else \<lfloor>x np / TILE_SIZE\<rfloor>);
          tyTop = \<lfloor>y np / TILE_SIZE\<rfloor>;
          tyBot = \<lfloor>(y np + h np - 1) / TILE_SIZE\<rfloor>
      in moveXLoop lvl p tx np [tyTop..tyBot])"

text \<open>The two loops of \<open>tryPlayerMoveY\<close> over the columns \<open>txLeft..txRight\<close>; neither
  leaves early.\<close>

fun moveYDown :: "level \<Rightarrow> int \<Rightarrow> player \<Rightarrow> int list \<Rightarrow> player" where
  "moveYDown lvl tyBot np [] = np"
| "moveYDown lvl tyBot np (tx # txs) =
     (let t = tileQ lvl tyBot tx in
      moveYDown lvl tyBot
        (if isGround t \<or> isPlatform t
         then np\<lparr> y := of_int tyBot * TILE_SIZE - h np, dy := 0, grounded := True,
                  coyote := coyoteMs PHYS \<rparr>
         else np) txs)"

fun moveYUp :: "level \<Rightarrow> int \<Rightarrow> player \<Rightarrow> int list \<Rightarrow> player" where
  "moveYUp lvl tyTop np [] = np"
| "moveYUp lvl tyTop np (tx # txs) =
     (let t = tileQ lvl tyTop tx in
      moveYUp lvl tyTop
        (if isSolid t then np\<lparr> y := of_int (tyTop + 1) * TILE_SIZE, dy := 0 \<rparr> else np) txs)"

definition tryPlayerMoveY :: "level \<Rightarrow> player \<Rightarrow> real \<Rightarrow> player" where
  "tryPlayerMoveY lvl p dt =
     (let np = p\<lparr> y := y p + dy p * dt, grounded := False \<rparr>;
          np = (if dy p \<ge> 0
                then moveYDown lvl \<lfloor>(y np + h np) / TILE_SIZE\<rfloor> np
                       [\<lfloor>x np / TILE_SIZE\<rfloor>..\<lfloor>(x np + w np - 1) / TILE_SIZE\<rfloor>]
                else np);
          np = (if dy p < 0
                then moveYUp lvl \<lfloor>y np / TILE_SIZE\<rfloor> np
                       [\<lfloor>x np / TILE_SIZE\<rfloor>..\<lfloor>(x np + w np - 1) / TILE_SIZE\<rfloor>]
                else np)
      in np)"

definition circleBoxCollide :: "real \<Rightarrow> real \<Rightarrow> real \<Rightarrow> rect \<Rightarrow> bool" where
  "circleBoxCollide cx cy cr rc =
     (let testX = clamp cx (x rc) (x rc + w rc);
          testY = clamp cy (y rc) (y rc + h rc);
          distX = cx - testX;
          distY = cy - testY
      in distX * distX + distY * distY < cr * cr + 0.5)"

subsection \<open>The step function\<close>

text \<open>The keys object: a key is pressed when its entry is \<open>true\<close>; a key never touched has no
  entry.\<close>

type_synonym keys = "string \<rightharpoonup> bool"

definition pressed :: "keys \<Rightarrow> string \<Rightarrow> bool" where
  "pressed ks k = (ks k = Some True)"

text \<open>The remainder \<open>%\<close> of JavaScript takes the sign of the dividend.\<close>

definition jsRem :: "int \<Rightarrow> int \<Rightarrow> int" where
  "jsRem a b = sgn a * (\<bar>a\<bar> mod \<bar>b\<bar>)"

text \<open>Part 1 of \<open>stepGame\<close> up to the jump logic, one definition per commented block of
  the source: move, friction, clamp of the speed, gravity, clamp of the fall speed, coyote
  time, jump logic.\<close>

definition jumpHeld :: "keys \<Rightarrow> bool" where
  "jumpHeld ks = (pressed ks ''ArrowUp'' \<or> pressed ks ''Space'')"

definition applyMove :: "keys \<Rightarrow> real \<Rightarrow> player \<Rightarrow> player" where
  "applyMove ks dt p =
     (if pressed ks ''ArrowLeft'' \<or> pressed ks ''KeyA''
      then p\<lparr> dx := dx p - moveAccel PHYS * dt, dir := - 1 \<rparr>
      else if pressed ks ''ArrowRight'' \<or> pressed ks ''KeyD''
      then p\<lparr> dx := dx p + moveAccel PHYS * dt, dir := 1 \<rparr>
      else p)"

definition applyFriction :: "real \<Rightarrow> player \<Rightarrow> player" where
  "applyFriction dt p =
     p\<lparr> dx := dx p * (if grounded p then frictionGround PHYS powr (dt * 60)
                        else frictionAir PHYS powr (dt * 60)) \<rparr>"

definition clampSpeed :: "player \<Rightarrow> player" where
  "clampSpeed p = p\<lparr> dx := clamp (dx p) (- maxDX PHYS) (maxDX PHYS) \<rparr>"

definition applyGravity :: "real \<Rightarrow> player \<Rightarrow> player" where
  "applyGravity dt p = (if \<not> grounded p then p\<lparr> dy := dy p + gravity PHYS * dt \<rparr> else p)"

definition clampFall :: "player \<Rightarrow> player" where
  "clampFall p = p\<lparr> dy := clamp (dy p) (- maxDY PHYS) (maxDY PHYS) \<rparr>"

definition updateCoyote :: "real \<Rightarrow> player \<Rightarrow> player" where
  "updateCoyote dt p =
     p\<lparr> coyote := (if grounded p \<or> coyote p > 0 then coyoteMs PHYS
                    else max (coyote p - dt * 1000) 0) \<rparr>"

definition jumpLogic :: "keys \<Rightarrow> player \<Rightarrow> player" where
  "jumpLogic ks p0 =
     (let wantsJump = jumpHeld ks;
          p = (if wantsJump \<and> \<not> jumping p0 \<and> (grounded p0 \<or> coyote p0 > 0)
               then p0\<lparr> dy := - jumpVel PHYS, grounded := False, jumping := True, coyote := 0 \<rparr>
               else p0)
      in if \<not> wantsJump then p\<lparr> jumping := False \<rparr> else p)"

definition playerInput :: "keys \<Rightarrow> real \<Rightarrow> player \<Rightarrow> player" where
  "playerInput ks dt p =
     jumpLogic ks (updateCoyote dt (clampFall (applyGravity dt
       (clampSpeed (applyFriction dt (applyMove ks dt p))))))"

definition updateAnim :: "real \<Rightarrow> player \<Rightarrow> player" where
  "updateAnim dt m =
     (let m = m\<lparr> animTimer := animTimer m + dt \<rparr> in
      if \<bar>dx m\<bar> > 12 then m\<lparr> frame := jsRem \<lfloor>animTimer m * 8\<rfloor> 2 \<rparr> else m\<lparr> frame := 0 \<rparr>)"

text \<open>Part 1 as a whole: the player after input, the two moves and the animation update.\<close>

definition movePlayer :: "level \<Rightarrow> keys \<Rightarrow> real \<Rightarrow> player \<Rightarrow> player option" where
  "movePlayer lvl ks dt p0 =
     (case tryPlayerMoveX lvl (playerInput ks dt p0) dt of
        None \<Rightarrow> None
      | Some movedX \<Rightarrow> Some (updateAnim dt (tryPlayerMoveY lvl movedX dt)))"

text \<open>Part 2: the body of \<open>st.enemies.map\<close> and the map itself.\<close>

definition stepEnemy :: "level \<Rightarrow> real \<Rightarrow> enemy \<Rightarrow> enemy option" where
  "stepEnemy lvl dt e =
     (if dead e then Some e
      else
        (let ex = e\<lparr> dx := clamp (dx e) (- enemyPatrolSpeed PHYS) (enemyPatrolSpeed PHYS) \<rparr>;
             ex = ex\<lparr> x := x ex + dx ex * dt \<rparr>;
             ex = (if x ex < bmin (patrolRange ex)
                   then ex\<lparr> x := bmin (patrolRange ex), dx := \<bar>dx ex\<bar> \<rparr>
                   else if x ex > bmax (patrolRange ex)
                   then ex\<lparr> x := bmax (patrolRange ex), dx := - \<bar>dx ex\<bar> \<rparr>
                   else ex)
         in case getTile lvl (x ex + w ex / 2) (y ex + h ex + 1) of
              None \<Rightarrow> None
            | Some below \<Rightarrow> Some (if \<not> isGround below then ex\<lparr> dx := - dx ex \<rparr> else ex)))"

fun enemyAI :: "level \<Rightarrow> real \<Rightarrow> enemy list \<Rightarrow> enemy list option" where
  "enemyAI lvl dt [] = Some []"
| "enemyAI lvl dt (e # es) =
     (case stepEnemy lvl dt e of
        None \<Rightarrow> None
      | Some ex \<Rightarrow> (case enemyAI lvl dt es of None \<Rightarrow> None | Some exs \<Rightarrow> Some (ex # exs)))"

text \<open>Part 3: the conditions of the two branches, and the loop over the enemies. The loop
  carries \<open>movedY\<close>, \<open>newEnemies\<close>, \<open>stompedEnemies\<close> and \<open>playerDied\<close>; only the side-hit
  branch leaves it (\<open>break\<close>).\<close>

definition overlaps :: "player \<Rightarrow> enemy \<Rightarrow> bool" where
  "overlaps m e = rectsCollide (getPlayerRect m) (getEntityRect e)"

definition stompCond :: "player \<Rightarrow> enemy \<Rightarrow> bool" where
  "stompCond m e = (dy m > 30 \<and> y m + h m - 6 < y e + 8 \<and> y m < y e)"

text \<open>The player after the stomp branch and after the side-hit branch.\<close>

definition stomped :: "player \<Rightarrow> player" where
  "stomped m = m\<lparr> dy := - jumpVel PHYS * 0.7, grounded := False \<rparr>"

definition sideHit :: "int \<Rightarrow> player \<Rightarrow> player" where
  "sideHit lv m = m\<lparr> hitLives := Some (lv - 1), dead := True, respawnTimer := 0.9,
                      invuln := invulnMs PHYS \<rparr>"

type_synonym hitState = "player \<times> enemy list \<times> nat list \<times> bool"

fun enemyPass :: "int \<Rightarrow> nat list \<Rightarrow> hitState \<Rightarrow> hitState" where
  "enemyPass lv [] s = s"
| "enemyPass lv (i # is) (m, es, stompedEnemies, playerDied) =
     (let e = es ! i in
      if dead e then enemyPass lv is (m, es, stompedEnemies, playerDied)
      else if overlaps m e then
        (if stompCond m e
         then enemyPass lv is
                (stomped m, es[i := e\<lparr> dead := True \<rparr>], stompedEnemies @ [i], playerDied)
         else if invuln m \<le> 0
         then (sideHit lv m, es, stompedEnemies, True)
         else enemyPass lv is (m, es, stompedEnemies, playerDied))
      else enemyPass lv is (m, es, stompedEnemies, playerDied))"

text \<open>Part 4: the loop over the coins, carrying \<open>coins\<close>, \<open>collectedCoins\<close> and
  \<open>scoreInc\<close>.\<close>

type_synonym coinState = "coin list \<times> nat list \<times> int"

definition picks :: "rect \<Rightarrow> coin \<Rightarrow> bool" where
  "picks rc c = (\<not> collected c \<and> circleBoxCollide (x c) (y c) (r c) rc)"

fun coinPass :: "rect \<Rightarrow> nat list \<Rightarrow> coinState \<Rightarrow> coinState" where
  "coinPass rc [] s = s"
| "coinPass rc (i # is) (cs, got, scoreInc) =
     (let c = cs ! i in
      if picks rc c
      then coinPass rc is (cs[i := c\<lparr> collected := True \<rparr>], got @ [i], scoreInc + 10)
      else coinPass rc is (cs, got, scoreInc))"

text \<open>Part 6: death and respawn.\<close>

definition deathRespawn :: "level \<Rightarrow> real \<Rightarrow> player \<Rightarrow> player" where
  "deathRespawn lvl dt m =
     (if dead m then
        (let m = m\<lparr> invuln := invulnMs PHYS, respawnTimer := respawnTimer m - dt \<rparr> in
         if respawnTimer m \<le> 0 then
           (let ps = player_spawn (findSpawns lvl);
                xy = tile2px (fst ps) (snd ps)
            in m\<lparr> x := x xy, y := y xy - TILE_SIZE, dx := 0, dy := 0, dir := 1,
                   grounded := False, dead := False, invuln := invulnMs PHYS \<rparr>)
         else m)
      else if invuln m > 0 then
        (let m = m\<lparr> invuln := invuln m - dt * 1000 \<rparr> in
         if invuln m < 0 then m\<lparr> invuln := 0 \<rparr> else m)
      else m)"

definition clampToWorld :: "level \<Rightarrow> player \<Rightarrow> player" where
  "clampToWorld lvl m =
     (let m = m\<lparr> x := clamp (x m) 0 (of_int (width lvl) * TILE_SIZE - w m) \<rparr> in
      m\<lparr> y := clamp (y m) 0 (of_int (height lvl - 1) * TILE_SIZE - h m) \<rparr>)"

definition followCamera :: "level \<Rightarrow> player \<Rightarrow> pos" where
  "followCamera lvl m =
     \<lparr> x = clamp (x m + w m / 2 - GAME_WIDTH / 2) 0 (of_int (width lvl) * TILE_SIZE - GAME_WIDTH),
       y = 0 \<rparr>"

text \<open>Parts 3 to 7 and the returned object, from the moved player and the moved enemies.\<close>

definition interact :: "state \<Rightarrow> real \<Rightarrow> player \<Rightarrow> enemy list \<Rightarrow> state option" where
  "interact st dt movedY0 newEnemies0 =
     (case enemyPass (lives st) [0..<length newEnemies0] (movedY0, newEnemies0, [], False) of
        (movedY, newEnemies, stompedEnemies, playerDied) \<Rightarrow>
     (case coinPass (getPlayerRect movedY) [0..<length (coins st)] (coins st, collectedCoins st, 0) of
        (coins', collectedCoins', scoreInc) \<Rightarrow>
     (case getTile (level st) (x movedY + w movedY / 2) (y movedY + h movedY / 2) of
        None \<Rightarrow> None
      | Some flagTile \<Rightarrow>
          (let win' = isFlag flagTile;
               scoreInc = (if win' then scoreInc + 100 else scoreInc);
               movedY = clampToWorld (level st) (deathRespawn (level st) dt movedY)
           in Some (st\<lparr> player := movedY,
                        enemies := newEnemies,
                        coins := coins',
                        collectedCoins := collectedCoins',
                        score := score st + scoreInc + int (length stompedEnemies) * 50,
                        lives := (case hitLives movedY of None \<Rightarrow> lives st | Some l \<Rightarrow> l),
                        camera := followCamera (level st) movedY,
                        win := win' \<rparr>)))))"

definition stepGame :: "state \<Rightarrow> keys \<Rightarrow> real \<Rightarrow> state option" where
  "stepGame prev ks dt =
     (let st = prev\<lparr> timer := timer prev + dt \<rparr> in
      case movePlayer (level st) ks dt (player st) of
        None \<Rightarrow> None
      | Some movedY \<Rightarrow>
          (case enemyAI (level st) dt (enemies st) of
             None \<Rightarrow> None
           | Some newEnemies \<Rightarrow> interact st dt movedY newEnemies))"

text \<open>A run of the loop: one step per frame, with that frame's keys and time delta.\<close>

fun runGame :: "state \<Rightarrow> (keys \<times> real) list \<Rightarrow> state option" where
  "runGame st [] = Some st"
| "runGame st ((ks, dt) # fs) =
     (case stepGame st ks dt of None \<Rightarrow> None | Some st' \<Rightarrow> runGame st' fs)"

section \<open>Well-formed states and concrete inputs\<close>

text \<open>
  The player object carries the property \<open>lives\<close> only after a side hit, and then it holds the
  number of lives of the session: this is true of the initial state and every step keeps it.
\<close>

definition livesOK :: "state \<Rightarrow> bool" where
  "livesOK st = (hitLives (player st) = None \<or> hitLives (player st) = Some (lives st))"

definition noKeys :: keys where "noKeys = Map.empty"

definition jumpKeys :: keys where "jumpKeys = [''Space'' \<mapsto> True]"

definition noJump :: "(keys \<times> real) list \<Rightarrow> bool" where
  "noJump fs = (\<forall>f \<in> set fs. \<not> jumpHeld (fst f))"

text \<open>The first level with the player standing on the ground inside the fourth enemy's box, with
  three lives and with none left.\<close>

definition besideEnemy :: state where
  "besideEnemy = mkInitialGameState\<lparr>
     player := (player mkInitialGameState)\<lparr> x := 210, y := 170, grounded := True \<rparr> \<rparr>"

definition lastLife :: state where
  "lastLife = besideEnemy\<lparr> lives := 0 \<rparr>"

text \<open>The first level with the player in the air above the platform of row 7, the coyote timer
  armed as it is after leaving a ledge; and three frames without any key.\<close>

definition offLedge :: state where
  "offLedge = mkInitialGameState\<lparr>
     player := (player mkInitialGameState)\<lparr> x := 100, y := 140, coyote := 100 \<rparr> \<rparr>"

definition idleFrames :: "(keys \<times> real) list" where
  "idleFrames = [(noKeys, 1 / 60), (noKeys, 1 / 60), (noKeys, 1 / 60)]"

text \<open>The abscissa of the single point that \<open>tryPlayerMoveX\<close> probes: the leading edge of the
  moved box.\<close>

definition probeX :: "player \<Rightarrow> real \<Rightarrow> real" where
  "probeX p dt = x p + dx p * dt + (if dx p > 0 then w p else 0)"

text \<open>The first level with the player running on the ground towards the platform tile of row 7,
  column 4, and rising under the platform tile of row 3, column 3; and the player as
  \<open>tryPlayerMoveX\<close> and \<open>tryPlayerMoveY\<close> receive it in these two steps.\<close>

definition intoPlatform :: state where
  "intoPlatform = mkInitialGameState\<lparr>
     player := (player mkInitialGameState)\<lparr> x := 77, y := 170, dx := 100, grounded := True \<rparr> \<rparr>"

definition underPlatform :: state where
  "underPlatform = mkInitialGameState\<lparr>
     player := (player mkInitialGameState)\<lparr> x := 75, y := 97, dy := - 315 \<rparr> \<rparr>"

definition runner :: player where
  "runner = (player mkInitialGameState)\<lparr> x := 77, y := 170, dx := 78, grounded := True \<rparr>"

definition riser :: player where
  "riser = (player mkInitialGameState)\<lparr> x := 75, y := 97, dy := - 300 \<rparr>"

text \<open>A second level, with two enemy markers and two coin markers side by side, and its initial
  state.\<close>

definition arena :: level where
  "arena = \<lparr> name = ''Arena'', width = 8, height = 5, tiles = [
     [0,0,0,0,0,0,0,0],
     [0,0,0,4,4,0,0,0],
     [0,3,3,0,0,0,0,0],
     [0,0,0,0,0,0,0,0],
     replicate 8 1] \<rparr>"

definition arenaStart :: state where
  "arenaStart = mkInitialGameStateOf arena"









text \<open>The number of tombstoned enemies.\<close>

definition deadCount :: "enemy list \<Rightarrow> int" where
  "deadCount es = int (length (filter dead es))"

text \<open>The list of collected indices has no duplicates and names tombstoned coins only: true of
  the initial state, and every step keeps it.\<close>

definition coinsOK :: "state \<Rightarrow> bool" where
  "coinsOK st = (distinct (collectedCoins st) \<and>
     (\<forall>i \<in> set (collectedCoins st). i < length (coins st) \<and> collected (coins st ! i)))"

text \<open>The first level with the player standing in the flag tile, the win already recorded.\<close>

definition onFlag :: state where
  "onFlag = mkInitialGameState\<lparr> score := 100, win := True,
     player := (player mkInitialGameState)\<lparr> x := 740, y := 170, grounded := True \<rparr> \<rparr>"

text \<open>The second level with the player's box over both coins, with none of them collected and
  with the first already collected; and the player as the coin pass receives it.\<close>

definition twoCoins :: state where
  "twoCoins = arenaStart\<lparr> player := (player arenaStart)\<lparr> x := 36, y := 40 \<rparr> \<rparr>"

definition oneCoin :: state where
  "oneCoin = twoCoins\<lparr> coins := [\<lparr>x = 30, y = 53, r = 6, collected = True\<rparr>,
                                  \<lparr>x = 54, y = 53, r = 6, collected = False\<rparr>],
                        collectedCoins := [0], score := 10 \<rparr>"

definition collector :: player where
  "collector = (player arenaStart)\<lparr> x := 36, y := 1009 / 25, dy := 18, animTimer := 1 / 50 \<rparr>"

text \<open>The first level a moment before a respawn: the player dead for 0.89 s, standing over the
  coin of index 7, the first enemy tombstoned; and the player as moved in the next step.\<close>

definition respawning :: state where
  "respawning = mkInitialGameState\<lparr> lives := 2, score := 50,
     enemies := (enemies mkInitialGameState)[0 := (enemies mkInitialGameState ! 0)\<lparr> dead := True \<rparr>],
     player := (player mkInitialGameState)\<lparr> x := 262, y := 170, grounded := True, dead := True,
        invuln := 1100, respawnTimer := 1 / 100, hitLives := Some 2 \<rparr> \<rparr>"

definition riseAgain :: player where
  "riseAgain = (player respawning)\<lparr> coyote := 100, animTimer := 1 / 50 \<rparr>"

text \<open>What the spec calls well-formed level data: as many rows as the declared height, each as
  long as the declared width. The level \<open>ragged\<close> is not: two rows of lengths 2 and 5 under a
  declared size of 4 by 3, and no row 5 where the player's spawn point lies.\<close>

definition wellFormed :: "level \<Rightarrow> bool" where
  "wellFormed lvl = (int (length (tiles lvl)) = height lvl \<and>
     list_all (\<lambda>row. int (length row) = width lvl) (tiles lvl))"

definition ragged :: level where
  "ragged = \<lparr> name = ''Ragged'', width = 4, height = 3, tiles = [[0, 4], [3, 0, 0, 0, 0]] \<rparr>"


text \<open>The initial state of the level \<open>ragged\<close> with the player beside its missing third row.\<close>

definition raggedFall :: state where
  "raggedFall = (mkInitialGameStateOf ragged)\<lparr>
     player := (player (mkInitialGameStateOf ragged))\<lparr> y := 50 \<rparr> \<rparr>"





section \<open>Properties of the player's move\<close>

lemma applyMove_frame [simp]:
  "x (applyMove ks dt p) = x p" "y (applyMove ks dt p) = y p"
  "w (applyMove ks dt p) = w p" "h (applyMove ks dt p) = h p"
  "dy (applyMove ks dt p) = dy p" "dead (applyMove ks dt p) = dead p"
  "grounded (applyMove ks dt p) = grounded p" "jumping (applyMove ks dt p) = jumping p"
  "coyote (applyMove ks dt p) = coyote p" "invuln (applyMove ks dt p) = invuln p"
  "respawnTimer (applyMove ks dt p) = respawnTimer p" "hitLives (applyMove ks dt p) = hitLives p"
  by (simp_all add: applyMove_def)

lemma applyFriction_frame [simp]:
  "x (applyFriction dt p) = x p" "y (applyFriction dt p) = y p"
  "w (applyFriction dt p) = w p" "h (applyFriction dt p) = h p"
  "dy (applyFriction dt p) = dy p" "dead (applyFriction dt p) = dead p"
  "grounded (applyFriction dt p) = grounded p" "jumping (applyFriction dt p) = jumping p"
  "coyote (applyFriction dt p) = coyote p" "invuln (applyFriction dt p) = invuln p"
  "respawnTimer (applyFriction dt p) = respawnTimer p" "hitLives (applyFriction dt p) = hitLives p"
  by (simp_all add: applyFriction_def)

lemma clampSpeed_frame [simp]:
  "x (clampSpeed p) = x p" "y (clampSpeed p) = y p"
  "w (clampSpeed p) = w p" "h (clampSpeed p) = h p"
  "dy (clampSpeed p) = dy p" "dead (clampSpeed p) = dead p"
  "grounded (clampSpeed p) = grounded p" "jumping (clampSpeed p) = jumping p"
  "coyote (clampSpeed p) = coyote p" "invuln (clampSpeed p) = invuln p"
  "respawnTimer (clampSpeed p) = respawnTimer p" "hitLives (clampSpeed p) = hitLives p"
  by (simp_all add: clampSpeed_def)

lemma applyGravity_frame [simp]:
  "x (applyGravity dt p) = x p" "y (applyGravity dt p) = y p"
  "w (applyGravity dt p) = w p" "h (applyGravity dt p) = h p"
  "dead (applyGravity dt p) = dead p"
  "grounded (applyGravity dt p) = grounded p" "jumping (applyGravity dt p) = jumping p"
  "coyote (applyGravity dt p) = coyote p" "invuln (applyGravity dt p) = invuln p"
  "respawnTimer (applyGravity dt p) = respawnTimer p" "hitLives (applyGravity dt p) = hitLives p"
  by (simp_all add: applyGravity_def)

lemma clampFall_frame [simp]:
  "x (clampFall p) = x p" "y (clampFall p) = y p"
  "w (clampFall p) = w p" "h (clampFall p) = h p"
  "dead (clampFall p) = dead p"
  "grounded (clampFall p) = grounded p" "jumping (clampFall p) = jumping p"
  "coyote (clampFall p) = coyote p" "invuln (clampFall p) = invuln p"
  "respawnTimer (clampFall p) = respawnTimer p" "hitLives (clampFall p) = hitLives p"
  by (simp_all add: clampFall_def)

lemma updateCoyote_frame [simp]:
  "x (updateCoyote dt p) = x p" "y (updateCoyote dt p) = y p"
  "w (updateCoyote dt p) = w p" "h (updateCoyote dt p) = h p"
  "dy (updateCoyote dt p) = dy p" "dead (updateCoyote dt p) = dead p"
  "grounded (updateCoyote dt p) = grounded p" "jumping (updateCoyote dt p) = jumping p"
  "invuln (updateCoyote dt p) = invuln p"
  "respawnTimer (updateCoyote dt p) = respawnTimer p" "hitLives (updateCoyote dt p) = hitLives p"
  "coyote (updateCoyote dt p) =
     (if grounded p \<or> coyote p > 0 then coyoteMs PHYS else max (coyote p - dt * 1000) 0)"
  by (simp_all add: updateCoyote_def)

lemma jumpLogic_frame [simp]:
  "x (jumpLogic ks p) = x p" "y (jumpLogic ks p) = y p"
  "w (jumpLogic ks p) = w p" "h (jumpLogic ks p) = h p"
  "dead (jumpLogic ks p) = dead p" "invuln (jumpLogic ks p) = invuln p"
  "respawnTimer (jumpLogic ks p) = respawnTimer p" "hitLives (jumpLogic ks p) = hitLives p"
  by (simp_all add: jumpLogic_def Let_def)

lemma jumpLogic_coyote:
  "coyote (jumpLogic ks p) =
     (if jumpHeld ks \<and> \<not> jumping p \<and> (grounded p \<or> coyote p > 0) then 0 else coyote p)"
  by (simp add: jumpLogic_def Let_def)

lemma jumpLogic_jump:
  "jumpHeld ks \<Longrightarrow> \<not> jumping p \<Longrightarrow> grounded p \<or> 0 < coyote p \<Longrightarrow>
     dy (jumpLogic ks p) = - jumpVel PHYS \<and> jumping (jumpLogic ks p) \<and> \<not> grounded (jumpLogic ks p)"
  by (simp add: jumpLogic_def Let_def)

lemma playerInput_frame:
  "x (playerInput ks dt p) = x p" "y (playerInput ks dt p) = y p"
  "w (playerInput ks dt p) = w p" "h (playerInput ks dt p) = h p"
  "dead (playerInput ks dt p) = dead p" "invuln (playerInput ks dt p) = invuln p"
  "respawnTimer (playerInput ks dt p) = respawnTimer p" "hitLives (playerInput ks dt p) = hitLives p"
  by (simp_all add: playerInput_def)

lemma playerInput_coyote:
  "grounded p \<or> 0 < coyote p \<Longrightarrow>
   coyote (playerInput ks dt p) = (if jumpHeld ks \<and> \<not> jumping p then 0 else coyoteMs PHYS)"
  by (auto simp add: playerInput_def jumpLogic_coyote PHYS_def)

lemma playerInput_jump:
  "jumpHeld ks \<Longrightarrow> \<not> jumping p \<Longrightarrow> grounded p \<or> 0 < coyote p \<Longrightarrow>
     dy (playerInput ks dt p) = - jumpVel PHYS \<and> jumping (playerInput ks dt p) \<and> \<not> grounded (playerInput ks dt p)"
  unfolding playerInput_def
  by (rule jumpLogic_jump) (auto simp: PHYS_def)

lemma moveXLoop_eq:
  "moveXLoop lvl p tx np tys =
     (if tys = [] then Some np
      else case getTile lvl (x np + (if dx np > 0 then w np else 0)) (y np + h p / 2) of
             None \<Rightarrow> None
           | Some t \<Rightarrow> if isSolid t
               then Some (np\<lparr> x := (if dx p > 0 then of_int tx * TILE_SIZE - w np
                                else of_int (tx + 1) * TILE_SIZE), dx := 0 \<rparr>)
               else Some np)"
  by (induction tys) (simp_all split: option.split)

lemma tryPlayerMoveX_cases:
  assumes "tryPlayerMoveX lvl p dt = Some q"
  shows "q = p\<lparr> x := x p + dx p * dt \<rparr> \<or> (\<exists>a. q = p\<lparr> x := a, dx := 0 \<rparr>)"
  using assms unfolding tryPlayerMoveX_def Let_def moveXLoop_eq
  by (auto split: if_splits option.splits)

lemma tryPlayerMoveX_frame:
  assumes "tryPlayerMoveX lvl p dt = Some q"
  shows "y q = y p" "w q = w p" "h q = h p" "dy q = dy p" "dead q = dead p"
    "invuln q = invuln p" "respawnTimer q = respawnTimer p" "hitLives q = hitLives p"
    "coyote q = coyote p" "jumping q = jumping p" "grounded q = grounded p"
  using tryPlayerMoveX_cases [OF assms] by auto

lemma moveYDown_eq:
  "moveYDown lvl tyBot np txs =
     (if \<exists>tx \<in> set txs. isGround (tileQ lvl tyBot tx) \<or> isPlatform (tileQ lvl tyBot tx)
      then np\<lparr> y := of_int tyBot * TILE_SIZE - h np, dy := 0, grounded := True,
               coyote := coyoteMs PHYS \<rparr>
      else np)"
proof (induction txs arbitrary: np)
  case Nil
  show ?case by simp
next
  case (Cons tx txs)
  show ?case by (simp add: Cons.IH Let_def)
qed

lemma moveYUp_eq:
  "moveYUp lvl tyTop np txs =
     (if \<exists>tx \<in> set txs. isSolid (tileQ lvl tyTop tx)
      then np\<lparr> y := of_int (tyTop + 1) * TILE_SIZE, dy := 0 \<rparr>
      else np)"
proof (induction txs arbitrary: np)
  case Nil
  show ?case by simp
next
  case (Cons tx txs)
  show ?case by (simp add: Cons.IH Let_def)
qed

lemma tryPlayerMoveY_frame:
  "x (tryPlayerMoveY lvl p dt) = x p" "w (tryPlayerMoveY lvl p dt) = w p"
  "h (tryPlayerMoveY lvl p dt) = h p" "dead (tryPlayerMoveY lvl p dt) = dead p"
  "invuln (tryPlayerMoveY lvl p dt) = invuln p"
  "respawnTimer (tryPlayerMoveY lvl p dt) = respawnTimer p"
  "hitLives (tryPlayerMoveY lvl p dt) = hitLives p"
  "jumping (tryPlayerMoveY lvl p dt) = jumping p"
  unfolding tryPlayerMoveY_def Let_def moveYDown_eq moveYUp_eq
  by simp_all

lemma tryPlayerMoveY_coyote:
  "coyote (tryPlayerMoveY lvl p dt) = coyote p \<or> coyote (tryPlayerMoveY lvl p dt) = coyoteMs PHYS"
  "dy p < 0 \<Longrightarrow> coyote (tryPlayerMoveY lvl p dt) = coyote p"
  unfolding tryPlayerMoveY_def Let_def moveYDown_eq moveYUp_eq
  by simp_all

lemma updateAnim_frame [simp]:
  "x (updateAnim dt p) = x p" "y (updateAnim dt p) = y p"
  "w (updateAnim dt p) = w p" "h (updateAnim dt p) = h p"
  "dy (updateAnim dt p) = dy p" "dead (updateAnim dt p) = dead p"
  "grounded (updateAnim dt p) = grounded p" "jumping (updateAnim dt p) = jumping p"
  "coyote (updateAnim dt p) = coyote p" "invuln (updateAnim dt p) = invuln p"
  "respawnTimer (updateAnim dt p) = respawnTimer p" "hitLives (updateAnim dt p) = hitLives p"
  by (simp_all add: updateAnim_def Let_def)

lemma movePlayer_frame:
  assumes "movePlayer lvl ks dt p = Some m"
  shows "w m = w p" "h m = h p" "dead m = dead p" "invuln m = invuln p"
    "respawnTimer m = respawnTimer p" "hitLives m = hitLives p"
  using assms
  by (auto simp: movePlayer_def tryPlayerMoveY_frame playerInput_frame
           split: option.splits dest: tryPlayerMoveX_frame)

lemma movePlayer_coyote:
  assumes "movePlayer lvl ks dt p = Some m" and "grounded p \<or> 0 < coyote p"
  shows "coyote m = (if jumpHeld ks \<and> \<not> jumping p then 0 else coyoteMs PHYS)"
proof -
  from assms(1) obtain q where q: "tryPlayerMoveX lvl (playerInput ks dt p) dt = Some q"
    and m: "m = updateAnim dt (tryPlayerMoveY lvl q dt)"
    by (auto simp: movePlayer_def split: option.splits)
  have cq: "coyote q = (if jumpHeld ks \<and> \<not> jumping p then 0 else coyoteMs PHYS)"
    using tryPlayerMoveX_frame(9) [OF q] playerInput_coyote [OF assms(2)] by simp
  show ?thesis
  proof (cases "jumpHeld ks \<and> \<not> jumping p")
    case True
    then have "dy q < 0"
      using tryPlayerMoveX_frame(4) [OF q] playerInput_jump [of ks p dt] assms(2)
      by (simp add: PHYS_def)
    then show ?thesis using tryPlayerMoveY_coyote(2) [of q lvl dt] cq m by simp
  next
    case False
    then show ?thesis using tryPlayerMoveY_coyote(1) [of lvl q dt] cq m by auto
  qed
qed


section \<open>Properties of the enemy pass\<close>

lemma stepEnemy_dead: "stepEnemy lvl dt e = Some ex \<Longrightarrow> dead ex = dead e"
  by (auto simp: stepEnemy_def Let_def split: if_splits option.splits)

lemma enemyAI_dead:
  "enemyAI lvl dt es = Some exs \<Longrightarrow> map dead exs = map dead es"
  by (induction es arbitrary: exs) (auto split: option.splits dest: stepEnemy_dead)

lemma enemyAI_length: "enemyAI lvl dt es = Some exs \<Longrightarrow> length exs = length es"
  using enemyAI_dead [of lvl dt es exs] by (metis length_map)

lemma enemyAI_nth_dead:
  "enemyAI lvl dt es = Some exs \<Longrightarrow> j < length es \<Longrightarrow> dead (exs ! j) = dead (es ! j)"
  using enemyAI_dead [of lvl dt es exs] enemyAI_length [of lvl dt es exs]
  by (metis nth_map)

text \<open>The three ways one round of the loop can go.\<close>

lemma enemyPass_Cons:
  obtains
    (skip) "dead (es ! i) \<or> \<not> overlaps m (es ! i) \<or> (\<not> stompCond m (es ! i) \<and> 0 < invuln m)"
      "enemyPass lv (i # is) (m, es, sp, d) = enemyPass lv is (m, es, sp, d)"
  | (stomp) "\<not> dead (es ! i)" "overlaps m (es ! i)" "stompCond m (es ! i)"
      "enemyPass lv (i # is) (m, es, sp, d)
         = enemyPass lv is (stomped m, es[i := (es ! i)\<lparr> dead := True \<rparr>], sp @ [i], d)"
  | (hit) "\<not> dead (es ! i)" "overlaps m (es ! i)" "\<not> stompCond m (es ! i)" "invuln m \<le> 0"
      "enemyPass lv (i # is) (m, es, sp, d) = (sideHit lv m, es, sp, True)"
proof (cases "dead (es ! i) \<or> \<not> overlaps m (es ! i)")
  case True
  then show ?thesis using skip by (auto simp: Let_def)
next
  case live: False
  show ?thesis
  proof (cases "stompCond m (es ! i)")
    case True
    with live show ?thesis using stomp by (simp add: Let_def)
  next
    case False
    with live show ?thesis using skip hit by (cases "invuln m \<le> 0") (simp_all add: Let_def)
  qed
qed

lemma stomped_fields [simp]:
  "x (stomped m) = x m" "y (stomped m) = y m" "w (stomped m) = w m" "h (stomped m) = h m"
  "coyote (stomped m) = coyote m" "jumping (stomped m) = jumping m" "invuln (stomped m) = invuln m"
  "hitLives (stomped m) = hitLives m" "dead (stomped m) = dead m"
  "respawnTimer (stomped m) = respawnTimer m" "dy (stomped m) = - 238"
  by (simp_all add: stomped_def PHYS_def)

lemma sideHit_fields [simp]:
  "x (sideHit lv m) = x m" "y (sideHit lv m) = y m" "w (sideHit lv m) = w m" "h (sideHit lv m) = h m"
  "coyote (sideHit lv m) = coyote m" "jumping (sideHit lv m) = jumping m"
  "invuln (sideHit lv m) = invulnMs PHYS"
  "hitLives (sideHit lv m) = Some (lv - 1)" "dead (sideHit lv m)"
  "respawnTimer (sideHit lv m) = 0.9" "dy (sideHit lv m) = dy m"
  by (simp_all add: sideHit_def)

lemma overlaps_stomped [simp]: "overlaps (stomped m) e = overlaps m e"
  by (simp add: overlaps_def getPlayerRect_def)

lemma stompCond_stomped [simp]: "\<not> stompCond (stomped m) e"
  by (simp add: stompCond_def)

text \<open>One stomp at most: after a stomp the vertical speed is negative.\<close>

lemma enemyPass_no_stomp:
  "dy m \<le> 30 \<Longrightarrow> enemyPass lv is (m, es, sp, d) = (m', es', sp', d') \<Longrightarrow>
     es' = es \<and> sp' = sp"
proof (induction "is")
  case Nil
  then show ?case by simp
next
  case (Cons i "is")
  show ?case
  proof (cases rule: enemyPass_Cons [of es i m lv "is" sp d])
    case skip
    with Cons show ?thesis by simp
  next
    case stomp
    with Cons.prems(1) show ?thesis by (simp add: stompCond_def)
  next
    case hit
    with Cons.prems show ?thesis by simp
  qed
qed

lemma enemyPass_stomps:
  "enemyPass lv is (m, es, sp, d) = (m', es', sp', d') \<Longrightarrow>
     (es' = es \<and> sp' = sp) \<or>
     (\<exists>i \<in> set is. \<not> dead (es ! i) \<and> overlaps m (es ! i) \<and> stompCond m (es ! i) \<and>
        es' = es[i := (es ! i)\<lparr> dead := True \<rparr>] \<and> sp' = sp @ [i])"
proof (induction "is")
  case Nil
  then show ?case by simp
next
  case (Cons i "is")
  show ?case
  proof (cases rule: enemyPass_Cons [of es i m lv "is" sp d])
    case skip
    with Cons show ?thesis by auto
  next
    case stomp
    with Cons.prems
    have "enemyPass lv is (stomped m, es[i := (es ! i)\<lparr> dead := True \<rparr>], sp @ [i], d)
            = (m', es', sp', d')" by simp
    from enemyPass_no_stomp [OF _ this]
    have "es' = es[i := (es ! i)\<lparr> dead := True \<rparr>] \<and> sp' = sp @ [i]" by simp
    with stomp show ?thesis by auto
  next
    case hit
    with Cons.prems show ?thesis by simp
  qed
qed

lemma enemyPass_box:
  "enemyPass lv is (m, es, sp, d) = (m', es', sp', d') \<Longrightarrow>
     x m' = x m \<and> y m' = y m \<and> w m' = w m \<and> h m' = h m \<and> coyote m' = coyote m \<and>
     jumping m' = jumping m"
proof (induction "is" arbitrary: m es sp d)
  case Nil
  then show ?case by simp
next
  case (Cons i "is")
  show ?case
  proof (cases rule: enemyPass_Cons [of es i m lv "is" sp d])
    case skip
    with Cons show ?thesis by simp
  next
    case stomp
    with Cons.prems have "enemyPass lv is (stomped m, es[i := (es ! i)\<lparr> dead := True \<rparr>], sp @ [i], d)
      = (m', es', sp', d')" by simp
    from Cons.IH [OF this] show ?thesis by simp
  next
    case hit
    with Cons.prems show ?thesis by auto
  qed
qed

lemma enemyPass_length:
  "enemyPass lv is (m, es, sp, d) = (m', es', sp', d') \<Longrightarrow> length es' = length es"
  using enemyPass_stomps [of lv "is" m es sp d m' es' sp' d'] by auto

text \<open>What the pass does to the fields a side hit writes.\<close>

lemma enemyPass_hit:
  "enemyPass lv is (m, es, sp, False) = (m', es', sp', d') \<Longrightarrow>
     (if d'
      then hitLives m' = Some (lv - 1) \<and> dead m' \<and> respawnTimer m' = 0.9 \<and> invuln m' = invulnMs PHYS
      else hitLives m' = hitLives m \<and> dead m' = dead m \<and>
           respawnTimer m' = respawnTimer m \<and> invuln m' = invuln m)"
proof (induction "is" arbitrary: m es sp)
  case Nil
  then show ?case by auto
next
  case (Cons i "is")
  show ?case
  proof (cases rule: enemyPass_Cons [of es i m lv "is" sp False])
    case skip
    with Cons show ?thesis by simp
  next
    case stomp
    with Cons.prems have "enemyPass lv is (stomped m, es[i := (es ! i)\<lparr> dead := True \<rparr>], sp @ [i], False)
      = (m', es', sp', d')" by simp
    from Cons.IH [OF this] show ?thesis by simp
  next
    case hit
    with Cons.prems show ?thesis by auto
  qed
qed

lemma enemyPass_invuln:
  "0 < invuln m \<Longrightarrow> enemyPass lv is (m, es, sp, d) = (m', es', sp', d') \<Longrightarrow> d' = d"
proof (induction "is" arbitrary: m es sp d)
  case Nil
  then show ?case by auto
next
  case (Cons i "is")
  show ?case
  proof (cases rule: enemyPass_Cons [of es i m lv "is" sp d])
    case skip
    with Cons show ?thesis by simp
  next
    case stomp
    with Cons.prems have "enemyPass lv is (stomped m, es[i := (es ! i)\<lparr> dead := True \<rparr>], sp @ [i], d)
      = (m', es', sp', d')" by simp
    from Cons.IH [OF _ this] Cons.prems(1) show ?thesis by simp
  next
    case hit
    with Cons.prems show ?thesis by auto
  qed
qed

lemma enemyPass_skip:
  "\<forall>j \<in> set js. dead (es ! j) \<or> \<not> overlaps m (es ! j) \<Longrightarrow>
     enemyPass lv (js @ is) (m, es, sp, d) = enemyPass lv is (m, es, sp, d)"
  by (induction js) (auto simp: Let_def)

lemma enemyPass_side_hit:
  "invuln m \<le> 0 \<Longrightarrow> distinct is \<Longrightarrow>
   \<exists>i \<in> set is. i < length es \<and> \<not> dead (es ! i) \<and> overlaps m (es ! i) \<and> \<not> stompCond m (es ! i) \<Longrightarrow>
   enemyPass lv is (m, es, sp, d) = (m', es', sp', d') \<Longrightarrow> d'"
proof (induction "is" arbitrary: m es sp d)
  case Nil
  then show ?case by simp
next
  case (Cons i0 "is")
  from Cons.prems(3) obtain i where i: "i \<in> set (i0 # is)" "i < length es" "\<not> dead (es ! i)"
    "overlaps m (es ! i)" "\<not> stompCond m (es ! i)" by blast
  from Cons.prems(2) have dist: "distinct is" "i0 \<notin> set is" by simp_all
  show ?case
  proof (cases rule: enemyPass_Cons [of es i0 m lv "is" sp d])
    case skip
    with Cons.prems(1) i have "i \<noteq> i0" by auto
    with i have "\<exists>i \<in> set is. i < length es \<and> \<not> dead (es ! i) \<and> overlaps m (es ! i) \<and> \<not> stompCond m (es ! i)"
      by auto
    moreover from skip Cons.prems(4) have "enemyPass lv is (m, es, sp, d) = (m', es', sp', d')" by simp
    ultimately show ?thesis using Cons.IH [OF Cons.prems(1) dist(1)] by blast
  next
    case stomp
    let ?es = "es[i0 := (es ! i0)\<lparr> dead := True \<rparr>]"
    from stomp i have ne: "i \<noteq> i0" by auto
    with i have "i \<in> set is" "i < length ?es" "\<not> dead (?es ! i)" "overlaps (stomped m) (?es ! i)"
      "\<not> stompCond (stomped m) (?es ! i)" by simp_all
    then have ex: "\<exists>i \<in> set is. i < length ?es \<and> \<not> dead (?es ! i) \<and> overlaps (stomped m) (?es ! i)
          \<and> \<not> stompCond (stomped m) (?es ! i)" by blast
    have inv: "invuln (stomped m) \<le> 0" using Cons.prems(1) by simp
    from stomp Cons.prems(4) have "enemyPass lv is (stomped m, ?es, sp @ [i0], d) = (m', es', sp', d')"
      by simp
    from Cons.IH [OF inv dist(1) ex this] show ?thesis .
  next
    case hit
    with Cons.prems(4) show ?thesis by simp
  qed
qed

lemma enemyPass_single_stomp:
  assumes i: "i < length es" "\<not> dead (es ! i)" "overlaps m (es ! i)" "stompCond m (es ! i)"
    and others: "\<forall>j < length es. j \<noteq> i \<longrightarrow> dead (es ! j) \<or> \<not> overlaps m (es ! j)"
  shows "enemyPass lv [0..<length es] (m, es, sp, d) =
           (stomped m, es[i := (es ! i)\<lparr> dead := True \<rparr>], sp @ [i], d)"
proof -
  let ?es = "es[i := (es ! i)\<lparr> dead := True \<rparr>]"
  have split: "[0..<length es] = [0..<i] @ i # [Suc i..<length es]"
    using i(1) by (metis le_add1 le_add_same_cancel1 less_imp_add_positive upt_add_eq_append upt_conv_Cons)
  have before: "\<forall>j \<in> set [0..<i]. dead (es ! j) \<or> \<not> overlaps m (es ! j)"
    using others i(1) by auto
  have after: "\<forall>j \<in> set [Suc i..<length es]. dead (?es ! j) \<or> \<not> overlaps (stomped m) (?es ! j)"
    using others by auto
  have "enemyPass lv [0..<length es] (m, es, sp, d) = enemyPass lv (i # [Suc i..<length es]) (m, es, sp, d)"
    unfolding split by (rule enemyPass_skip [OF before])
  also have "\<dots> = enemyPass lv ([Suc i..<length es] @ []) (stomped m, ?es, sp @ [i], d)"
    using i by (simp add: Let_def)
  also have "\<dots> = enemyPass lv [] (stomped m, ?es, sp @ [i], d)"
    by (rule enemyPass_skip [OF after])
  finally show ?thesis by simp
qed


section \<open>Properties of the coin pass\<close>

lemma coinPass_Cons:
  "coinPass rc (i # is) (cs, got, inc) =
     (if picks rc (cs ! i)
      then coinPass rc is (cs[i := (cs ! i)\<lparr> collected := True \<rparr>], got @ [i], inc + 10)
      else coinPass rc is (cs, got, inc))"
  by (simp add: Let_def)

lemma coinPass_eq:
  "distinct is \<Longrightarrow> \<forall>i \<in> set is. i < length cs \<Longrightarrow>
   coinPass rc is (cs, got, inc) =
     (map (\<lambda>j. if j \<in> set is \<and> picks rc (cs ! j) then (cs ! j)\<lparr> collected := True \<rparr> else cs ! j)
          [0..<length cs],
      got @ filter (\<lambda>i. picks rc (cs ! i)) is,
      inc + 10 * int (length (filter (\<lambda>i. picks rc (cs ! i)) is)))"
proof (induction "is" arbitrary: cs got inc)
  case Nil
  show ?case by (simp add: map_nth)
next
  case (Cons i "is")
  let ?cs = "cs[i := (cs ! i)\<lparr> collected := True \<rparr>]"
  from Cons.prems have d: "distinct is" "i \<notin> set is" and b: "\<forall>j \<in> set is. j < length cs" "i < length cs"
    by simp_all
  show ?case
  proof (cases "picks rc (cs ! i)")
    case True
    have same: "\<And>j. j \<in> set is \<Longrightarrow> ?cs ! j = cs ! j" using d(2) by (metis nth_list_update_neq)
    have f: "filter (\<lambda>j. picks rc (?cs ! j)) is = filter (\<lambda>j. picks rc (cs ! j)) is"
      by (rule filter_cong) (simp_all add: same)
    have m: "map (\<lambda>j. if j \<in> set is \<and> picks rc (?cs ! j) then (?cs ! j)\<lparr> collected := True \<rparr> else ?cs ! j)
               [0..<length ?cs]
           = map (\<lambda>j. if j \<in> set (i # is) \<and> picks rc (cs ! j) then (cs ! j)\<lparr> collected := True \<rparr> else cs ! j)
               [0..<length cs]"
      using True b(2) d(2) by (auto simp: nth_list_update)
    have "coinPass rc (i # is) (cs, got, inc) = coinPass rc is (?cs, got @ [i], inc + 10)"
      using True by (simp add: coinPass_Cons)
    also have "\<dots> = (map (\<lambda>j. if j \<in> set is \<and> picks rc (?cs ! j) then (?cs ! j)\<lparr> collected := True \<rparr> else ?cs ! j)
               [0..<length ?cs], (got @ [i]) @ filter (\<lambda>j. picks rc (?cs ! j)) is,
               (inc + 10) + 10 * int (length (filter (\<lambda>j. picks rc (?cs ! j)) is)))"
      using b(1) by (intro Cons.IH [OF d(1)]) simp
    finally show ?thesis using True unfolding m f by simp
  next
    case False
    have m: "map (\<lambda>j. if j \<in> set is \<and> picks rc (cs ! j) then (cs ! j)\<lparr> collected := True \<rparr> else cs ! j)
               [0..<length cs]
           = map (\<lambda>j. if j \<in> set (i # is) \<and> picks rc (cs ! j) then (cs ! j)\<lparr> collected := True \<rparr> else cs ! j)
               [0..<length cs]"
      using False by auto
    have "coinPass rc (i # is) (cs, got, inc) = coinPass rc is (cs, got, inc)"
      using False by (simp add: coinPass_Cons)
    also have "\<dots> = (map (\<lambda>j. if j \<in> set is \<and> picks rc (cs ! j) then (cs ! j)\<lparr> collected := True \<rparr> else cs ! j)
               [0..<length cs], got @ filter (\<lambda>j. picks rc (cs ! j)) is,
               inc + 10 * int (length (filter (\<lambda>j. picks rc (cs ! j)) is)))"
      using b(1) by (intro Cons.IH [OF d(1)])
    finally show ?thesis using False unfolding m by simp
  qed
qed

lemma coinPass_all:
  "coinPass rc [0..<length cs] (cs, got, 0) =
     (map (\<lambda>c. if picks rc c then c\<lparr> collected := True \<rparr> else c) cs,
      got @ filter (\<lambda>i. picks rc (cs ! i)) [0..<length cs],
      10 * int (length (filter (\<lambda>i. picks rc (cs ! i)) [0..<length cs])))"
proof -
  have "map (\<lambda>j. if j \<in> set [0..<length cs] \<and> picks rc (cs ! j) then (cs ! j)\<lparr> collected := True \<rparr> else cs ! j)
          [0..<length cs] = map (\<lambda>c. if picks rc c then c\<lparr> collected := True \<rparr> else c) cs"
    by (rule nth_equalityI) simp_all
  then show ?thesis using coinPass_eq [of "[0..<length cs]" cs rc got 0] by simp
qed

section \<open>Properties of the step\<close>

lemma deathRespawn_frame [simp]:
  "hitLives (deathRespawn lvl dt m) = hitLives m" "coyote (deathRespawn lvl dt m) = coyote m"
  "jumping (deathRespawn lvl dt m) = jumping m" "w (deathRespawn lvl dt m) = w m"
  "h (deathRespawn lvl dt m) = h m" "animTimer (deathRespawn lvl dt m) = animTimer m"
  "frame (deathRespawn lvl dt m) = frame m" "wantsJump (deathRespawn lvl dt m) = wantsJump m"
  by (simp_all add: deathRespawn_def Let_def)

lemma clampToWorld_frame [simp]:
  "hitLives (clampToWorld lvl m) = hitLives m" "coyote (clampToWorld lvl m) = coyote m"
  "jumping (clampToWorld lvl m) = jumping m" "w (clampToWorld lvl m) = w m"
  "h (clampToWorld lvl m) = h m" "dead (clampToWorld lvl m) = dead m"
  "invuln (clampToWorld lvl m) = invuln m" "dx (clampToWorld lvl m) = dx m"
  "dy (clampToWorld lvl m) = dy m" "dir (clampToWorld lvl m) = dir m"
  "grounded (clampToWorld lvl m) = grounded m" "respawnTimer (clampToWorld lvl m) = respawnTimer m"
  "animTimer (clampToWorld lvl m) = animTimer m"
  "frame (clampToWorld lvl m) = frame m" "wantsJump (clampToWorld lvl m) = wantsJump m"
  by (simp_all add: clampToWorld_def Let_def)

text \<open>What a successful step is made of.\<close>

lemma stepGame_Some:
  assumes "stepGame st ks dt = Some st'"
  obtains m es m' es' sp d t where
    "movePlayer (level st) ks dt (player st) = Some m"
    "enemyAI (level st) dt (enemies st) = Some es"
    "enemyPass (lives st) [0..<length es] (m, es, [], False) = (m', es', sp, d)"
    "getTile (level st) (x m' + w m' / 2) (y m' + h m' / 2) = Some t"
    "player st' = clampToWorld (level st) (deathRespawn (level st) dt m')"
    "enemies st' = es'"
    "(coins st', collectedCoins st', score st' - score st - (if isFlag t then 100 else 0) - int (length sp) * 50)
       = coinPass (getPlayerRect m') [0..<length (coins st)] (coins st, collectedCoins st, 0)"
    "lives st' = (case hitLives m' of None \<Rightarrow> lives st | Some l \<Rightarrow> l)"
    "win st' = isFlag t" "level st' = level st" "timer st' = timer st + dt"
proof -
  from assms obtain m where m: "movePlayer (level st) ks dt (player st) = Some m"
    by (auto simp: stepGame_def Let_def split: option.splits)
  from assms obtain es where es: "enemyAI (level st) dt (enemies st) = Some es"
    by (auto simp: stepGame_def Let_def split: option.splits)
  obtain m' es' sp d where ep: "enemyPass (lives st) [0..<length es] (m, es, [], False) = (m', es', sp, d)"
    by (metis prod_cases4)
  obtain cs got inc where cp:
    "coinPass (getPlayerRect m') [0..<length (coins st)] (coins st, collectedCoins st, 0) = (cs, got, inc)"
    by (metis prod_cases3)
  from assms m es have i: "interact (st\<lparr> timer := timer st + dt \<rparr>) dt m es = Some st'"
    by (simp add: stepGame_def Let_def)
  from i ep cp obtain t where t: "getTile (level st) (x m' + w m' / 2) (y m' + h m' / 2) = Some t"
    by (auto simp: interact_def split: option.splits)
  from i ep cp t have st': "st' = st\<lparr> timer := timer st + dt,
        player := clampToWorld (level st) (deathRespawn (level st) dt m'),
        enemies := es', coins := cs, collectedCoins := got,
        score := score st + (if isFlag t then inc + 100 else inc) + int (length sp) * 50,
        lives := (case hitLives m' of None \<Rightarrow> lives st | Some l \<Rightarrow> l),
        camera := followCamera (level st) (clampToWorld (level st) (deathRespawn (level st) dt m')),
        win := isFlag t \<rparr>"
    by (auto simp: interact_def Let_def cong: option.case_cong)
  show ?thesis
    by (rule that [OF m es ep t]) (simp_all add: st' cp)
qed


section \<open>Concrete evaluation\<close>

lemma mkInitialGameState_eq:
  "mkInitialGameState =
    \<lparr>level = level1,
     player = \<lparr>x = 24, y = 96, w = 18, h = 22, dx = 0, dy = 0, dead = False, dir = 1,
        grounded = False, jumping = False, wantsJump = False, coyote = 0,
        invuln = 0, animTimer = 0, frame = 0, respawnTimer = 0, hitLives = None\<rparr>,
     camera = \<lparr>x = 0, y = 0\<rparr>,
     enemies =
       [\<lparr>x = 456, y = 48, w = 20, h = 18, dx = 60, dy = 0, dead = False,
           patrolRange = \<lparr>bmin = 408, bmax = 504\<rparr>\<rparr>,
        \<lparr>x = 624, y = 96, w = 20, h = 18, dx = 60, dy = 0, dead = False,
           patrolRange = \<lparr>bmin = 576, bmax = 672\<rparr>\<rparr>,
        \<lparr>x = 216, y = 120, w = 20, h = 18, dx = 60, dy = 0, dead = False,
           patrolRange = \<lparr>bmin = 168, bmax = 264\<rparr>\<rparr>,
        \<lparr>x = 216, y = 168, w = 20, h = 18, dx = 60, dy = 0, dead = False,
           patrolRange = \<lparr>bmin = 168, bmax = 264\<rparr>\<rparr>,
        \<lparr>x = 360, y = 168, w = 20, h = 18, dx = 60, dy = 0, dead = False,
           patrolRange = \<lparr>bmin = 312, bmax = 408\<rparr>\<rparr>],
     coins =
       [\<lparr>x = 246, y = 53, r = 6, collected = False\<rparr>,
        \<lparr>x = 534, y = 53, r = 6, collected = False\<rparr>,
        \<lparr>x = 606, y = 77, r = 6, collected = False\<rparr>,
        \<lparr>x = 270, y = 101, r = 6, collected = False\<rparr>,
        \<lparr>x = 150, y = 125, r = 6, collected = False\<rparr>,
        \<lparr>x = 678, y = 125, r = 6, collected = False\<rparr>,
        \<lparr>x = 318, y = 149, r = 6, collected = False\<rparr>,
        \<lparr>x = 270, y = 173, r = 6, collected = False\<rparr>,
        \<lparr>x = 462, y = 173, r = 6, collected = False\<rparr>],
     collectedCoins = [], score = 0, lives = 3, win = False, timer = 0, started = True\<rparr>"
  by (simp add: mkInitialGameState_def mkInitialGameStateOf_def findSpawns_def findCoins_def
        scanLevel_def level1_def cellAt_def isEnemy_def isCoin_def upt_conv_Cons
        mkEnemy_def mkCoin_def tile2px_def TILE_SIZE_def PHYS_def initialLives_def Let_def)

lemmas stepEval = stepGame_def movePlayer_def playerInput_def jumpLogic_def updateCoyote_def
  clampFall_def applyGravity_def clampSpeed_def applyFriction_def applyMove_def jumpHeld_def
  tryPlayerMoveX_def tryPlayerMoveY_def updateAnim_def interact_def deathRespawn_def
  clampToWorld_def followCamera_def stepEnemy_def stomped_def sideHit_def picks_def
  getTile_def tileQ_def rowAt_def cellAt_def px2tile_def TILE_SIZE_def GAME_WIDTH_def PHYS_def
  clamp_def isSolid_def isGround_def isPlatform_def isFlag_def overlaps_def stompCond_def
  rectsCollide_def getPlayerRect_def getEntityRect_def circleBoxCollide_def pressed_def
  jsRem_def findSpawns_def tile2px_def noKeys_def jumpKeys_def level1_def upt_conv_Cons Let_def

lemma step_lives:
  assumes "stepGame st ks dt = Some st'" and "livesOK st"
  shows "lives st' = lives st \<or> lives st' = lives st - 1" and "livesOK st'"
proof -
  from assms(1) obtain m es m' es' sp d where
    m: "movePlayer (level st) ks dt (player st) = Some m" and
    ep: "enemyPass (lives st) [0..<length es] (m, es, [], False) = (m', es', sp, d)" and
    pl: "player st' = clampToWorld (level st) (deathRespawn (level st) dt m')" and
    lv: "lives st' = (case hitLives m' of None \<Rightarrow> lives st | Some l \<Rightarrow> l)"
    by (rule stepGame_Some)
  have hm: "hitLives m = hitLives (player st)" using movePlayer_frame(6) [OF m] .
  from enemyPass_hit [OF ep] have "hitLives m' = Some (lives st - 1) \<or> hitLives m' = hitLives m"
    by (auto split: if_splits)
  with hm assms(2) lv show "lives st' = lives st \<or> lives st' = lives st - 1"
    by (auto simp: livesOK_def)
  from enemyPass_hit [OF ep] hm assms(2) lv pl show "livesOK st'"
    by (auto simp: livesOK_def split: if_splits)
qed

text \<open>
  C3, as stated, fails: the step has no floor at zero. Invoked with no lives left and a side
  hit, it returns \<open>lives = -1\<close>.
\<close>

theorem lives_step_counterexample:
  "lives lastLife = 0 \<and> map_option lives (stepGame lastLife noKeys (1 / 40)) = Some (- 1)"
  by (simp add: lastLife_def besideEnemy_def mkInitialGameState_eq stepEval cong: let_weak_cong)

text \<open>
  C3 (amended): in a step from a state whose player object agrees with the session's lives, the
  returned lives are the previous ones or one less. So they never increase, and they are not
  negative when at least one life was left before the step; the agreement is kept.
\<close>

theorem lives_step:
  assumes "stepGame st ks dt = Some st'" and "livesOK st"
  shows "lives st' \<le> lives st \<and> lives st - 1 \<le> lives st' \<and> (0 < lives st \<longrightarrow> 0 \<le> lives st')
         \<and> livesOK st'"
  using step_lives [OF assms] by auto

theorem lives_step_witness:
  "livesOK besideEnemy \<and> lives besideEnemy = 3
   \<and> map_option lives (stepGame besideEnemy noKeys (1 / 40)) = Some 2"
proof -
  have ok: "livesOK besideEnemy" by (simp add: livesOK_def besideEnemy_def mkInitialGameState_eq)
  obtain st' where e: "stepGame besideEnemy noKeys (1 / 40) = Some st'" and l: "lives st' = 2"
    by (simp add: besideEnemy_def mkInitialGameState_eq stepEval cong: let_weak_cong)
  from lives_step [OF e ok] e l ok show ?thesis by (simp add: besideEnemy_def mkInitialGameState_eq)
qed

section \<open>The coyote timer\<close>

lemma jumpLogic_jumping:
  "grounded p \<or> 0 < coyote p \<Longrightarrow> jumping (jumpLogic ks p) = jumpHeld ks"
  by (auto simp: jumpLogic_def Let_def)

lemma playerInput_jumping:
  "grounded p \<or> 0 < coyote p \<Longrightarrow> jumping (playerInput ks dt p) = jumpHeld ks"
  unfolding playerInput_def by (rule jumpLogic_jumping) (auto simp: PHYS_def)

lemma movePlayer_jumping:
  assumes "movePlayer lvl ks dt p = Some m" and "grounded p \<or> 0 < coyote p"
  shows "jumping m = jumpHeld ks"
proof -
  from assms obtain q where q: "tryPlayerMoveX lvl (playerInput ks dt p) dt = Some q"
    and m: "m = updateAnim dt (tryPlayerMoveY lvl q dt)"
    by (auto simp: movePlayer_def split: option.splits)
  from tryPlayerMoveX_frame(10) [OF q] m show ?thesis
    by (simp add: tryPlayerMoveY_frame playerInput_jumping [OF assms(2)])
qed

lemma step_coyote:
  assumes "stepGame st ks dt = Some st'" and "grounded (player st) \<or> 0 < coyote (player st)"
  shows "coyote (player st') = (if jumpHeld ks \<and> \<not> jumping (player st) then 0 else coyoteMs PHYS)"
proof -
  from assms(1) obtain m es m' es' sp d where
    m: "movePlayer (level st) ks dt (player st) = Some m" and
    ep: "enemyPass (lives st) [0..<length es] (m, es, [], False) = (m', es', sp, d)" and
    pl: "player st' = clampToWorld (level st) (deathRespawn (level st) dt m')"
    by (rule stepGame_Some)
  from enemyPass_box [OF ep] have "coyote m' = coyote m" by simp
  with movePlayer_coyote [OF m assms(2)] pl show ?thesis by simp
qed

lemma step_jumping:
  assumes "stepGame st ks dt = Some st'" and "grounded (player st) \<or> 0 < coyote (player st)"
  shows "jumping (player st') = jumpHeld ks"
proof -
  from assms(1) obtain m es m' es' sp d where
    m: "movePlayer (level st) ks dt (player st) = Some m" and
    ep: "enemyPass (lives st) [0..<length es] (m, es, [], False) = (m', es', sp, d)" and
    pl: "player st' = clampToWorld (level st) (deathRespawn (level st) dt m')"
    by (rule stepGame_Some)
  from enemyPass_box [OF ep] have "jumping m' = jumping m" by simp
  with movePlayer_jumping [OF m assms(2)] pl show ?thesis by simp
qed

lemma run_coyote:
  "runGame st fs = Some st' \<Longrightarrow> noJump fs \<Longrightarrow> 0 < coyote (player st) \<Longrightarrow>
     0 < coyote (player st') \<and> (fs \<noteq> [] \<longrightarrow> coyote (player st') = coyoteMs PHYS \<and> \<not> jumping (player st'))"
proof (induction fs arbitrary: st)
  case Nil
  then show ?case by simp
next
  case (Cons f fs)
  obtain ks dt where f: "f = (ks, dt)" by (cases f)
  from Cons.prems(1) f obtain st1 where s1: "stepGame st ks dt = Some st1"
    and r: "runGame st1 fs = Some st'" by (auto split: option.splits)
  from Cons.prems(2) f have nj: "\<not> jumpHeld ks" "noJump fs" by (simp_all add: noJump_def)
  from step_coyote [OF s1] Cons.prems(3) nj(1) have c1: "coyote (player st1) = coyoteMs PHYS" by simp
  from step_jumping [OF s1] Cons.prems(3) nj(1) have j1: "\<not> jumping (player st1)" by simp
  from c1 have pos: "0 < coyote (player st1)" by (simp add: PHYS_def)
  show ?case
  proof (cases fs)
    case Nil
    with r c1 j1 pos show ?thesis by simp
  next
    case (Cons g gs)
    with Cons.IH [OF r nj(2) pos] show ?thesis by simp
  qed
qed

lemma runGame_append:
  "runGame st (fs @ gs) = (case runGame st fs of None \<Rightarrow> None | Some s \<Rightarrow> runGame s gs)"
  by (induction fs arbitrary: st) (auto split: option.splits)

text \<open>
  C10: while the coyote timer is positive it is never counted down. A step sets it to its full
  value \<open>coyoteMs\<close>, unless a jump is triggered in that step (jump held and not already
  jumping), which sets it to 0: so it reaches 0 only by a jump. Hence after any number of
  frames without a jump it is still positive, and a jump pressed in the next frame, however
  late, is triggered and consumes it.
\<close>

theorem coyote_never_decays:
  assumes "0 < coyote (player st)"
  shows "(stepGame st ks dt = Some st' \<longrightarrow>
            coyote (player st') = (if jumpHeld ks \<and> \<not> jumping (player st) then 0 else coyoteMs PHYS))
       \<and> (runGame st fs = Some st1 \<and> noJump fs \<longrightarrow> 0 < coyote (player st1))
       \<and> (runGame st (fs @ [(ks2, dt2)]) = Some st2 \<and> noJump fs \<and> fs \<noteq> [] \<and> jumpHeld ks2 \<longrightarrow>
            jumping (player st2) \<and> coyote (player st2) = 0)"
proof (intro conjI impI)
  show "coyote (player st') = (if jumpHeld ks \<and> \<not> jumping (player st) then 0 else coyoteMs PHYS)"
    if "stepGame st ks dt = Some st'"
    using step_coyote [OF that] assms by simp
  show "0 < coyote (player st1)" if "runGame st fs = Some st1 \<and> noJump fs"
    using run_coyote [of st fs st1] that assms by simp
  assume a: "runGame st (fs @ [(ks2, dt2)]) = Some st2 \<and> noJump fs \<and> fs \<noteq> [] \<and> jumpHeld ks2"
  then obtain s1 where r: "runGame st fs = Some s1" and s: "stepGame s1 ks2 dt2 = Some st2"
    by (auto simp: runGame_append split: option.splits)
  from a have j: "jumpHeld ks2" by simp
  from run_coyote [OF r _ assms] a
  have c: "0 < coyote (player s1)" "\<not> jumping (player s1)" by simp_all
  from step_jumping [OF s] c(1) j show "jumping (player st2)" by simp
  from step_coyote [OF s] c j show "coyote (player st2) = 0" by simp
qed

theorem coyote_never_decays_witness:
  "0 < coyote (player offLedge) \<and> \<not> grounded (player offLedge)
   \<and> noJump idleFrames \<and> idleFrames \<noteq> [] \<and> jumpHeld jumpKeys
   \<and> map_option player (stepGame offLedge noKeys (1 / 60)) =
       Some \<lparr>x = 100, y = 561 / 4, w = 18, h = 22, dx = 0, dy = 15, dead = False,
          dir = 1, grounded = False, jumping = False, wantsJump = False,
          coyote = 100, invuln = 0, animTimer = 1 / 60, frame = 0,
          respawnTimer = 0, hitLives = None\<rparr>
   \<and> map_option player (runGame offLedge idleFrames) =
       Some \<lparr>x = 100, y = 283 / 2, w = 18, h = 22, dx = 0, dy = 45, dead = False,
          dir = 1, grounded = False, jumping = False, wantsJump = False,
          coyote = 100, invuln = 0, animTimer = 1 / 20, frame = 0,
          respawnTimer = 0, hitLives = None\<rparr>
   \<and> map_option player (runGame offLedge (idleFrames @ [(jumpKeys, 1 / 60)])) =
       Some \<lparr>x = 100, y = 815 / 6, w = 18, h = 22, dx = 0, dy = - 340,
          dead = False, dir = 1, grounded = False, jumping = True,
          wantsJump = False, coyote = 0, invuln = 0, animTimer = 1 / 15,
          frame = 0, respawnTimer = 0, hitLives = None\<rparr>"
proof -
  have h: "0 < coyote (player offLedge)" "\<not> grounded (player offLedge)"
    by (simp_all add: offLedge_def mkInitialGameState_eq)
  have nj: "noJump idleFrames" "idleFrames \<noteq> []" "jumpHeld jumpKeys"
    by (simp_all add: noJump_def idleFrames_def jumpHeld_def pressed_def noKeys_def jumpKeys_def)
  have e1: "map_option player (stepGame offLedge noKeys (1 / 60)) =
       Some \<lparr>x = 100, y = 561 / 4, w = 18, h = 22, dx = 0, dy = 15, dead = False,
          dir = 1, grounded = False, jumping = False, wantsJump = False,
          coyote = 100, invuln = 0, animTimer = 1 / 60, frame = 0,
          respawnTimer = 0, hitLives = None\<rparr>"
    by (simp add: offLedge_def mkInitialGameState_eq stepEval cong: let_weak_cong)
  have e2: "map_option player (runGame offLedge idleFrames) =
       Some \<lparr>x = 100, y = 283 / 2, w = 18, h = 22, dx = 0, dy = 45, dead = False,
          dir = 1, grounded = False, jumping = False, wantsJump = False,
          coyote = 100, invuln = 0, animTimer = 1 / 20, frame = 0,
          respawnTimer = 0, hitLives = None\<rparr>"
    by (simp add: offLedge_def idleFrames_def mkInitialGameState_eq stepEval cong: let_weak_cong)
  have e3: "map_option player (runGame offLedge (idleFrames @ [(jumpKeys, 1 / 60)])) =
       Some \<lparr>x = 100, y = 815 / 6, w = 18, h = 22, dx = 0, dy = - 340,
          dead = False, dir = 1, grounded = False, jumping = True,
          wantsJump = False, coyote = 0, invuln = 0, animTimer = 1 / 15,
          frame = 0, respawnTimer = 0, hitLives = None\<rparr>"
    by (simp add: offLedge_def idleFrames_def mkInitialGameState_eq stepEval cong: let_weak_cong)
  from e1 obtain s' where s': "stepGame offLedge noKeys (1 / 60) = Some s'" by auto
  from e2 obtain s1 where s1: "runGame offLedge idleFrames = Some s1" by auto
  from e3 obtain s2 where s2: "runGame offLedge (idleFrames @ [(jumpKeys, 1 / 60)]) = Some s2" by auto
  note t = coyote_never_decays [OF h(1), of noKeys "1 / 60" s' idleFrames s1 jumpKeys "1 / 60" s2]
  from t s' s1 s2 nj have "0 < coyote (player s1) \<and> jumping (player s2)" by simp
  with h nj e1 e2 e3 show ?thesis by simp
qed

section \<open>Which tiles block the player\<close>

lemma tryPlayerMoveX_eq:
  "tryPlayerMoveX lvl p dt =
     (if \<lfloor>(y p + h p - 1) / TILE_SIZE\<rfloor> < \<lfloor>y p / TILE_SIZE\<rfloor> then Some (p\<lparr> x := x p + dx p * dt \<rparr>)
      else case getTile lvl (probeX p dt) (y p + h p / 2) of
             None \<Rightarrow> None
           | Some t \<Rightarrow>
               if isSolid t
               then Some (p\<lparr> x := (if dx p > 0 then of_int \<lfloor>(x p + dx p * dt + w p) / TILE_SIZE\<rfloor> * TILE_SIZE - w p
                                     else of_int (\<lfloor>(x p + dx p * dt) / TILE_SIZE\<rfloor> + 1) * TILE_SIZE),
                            dx := 0 \<rparr>)
               else Some (p\<lparr> x := x p + dx p * dt \<rparr>))"
  unfolding tryPlayerMoveX_def Let_def moveXLoop_eq probeX_def
  by (auto split: option.splits)

lemma tryPlayerMoveY_up:
  "dy p < 0 \<Longrightarrow> tryPlayerMoveY lvl p dt =
     (if \<exists>tx \<in> {\<lfloor>x p / TILE_SIZE\<rfloor>..\<lfloor>(x p + w p - 1) / TILE_SIZE\<rfloor>}.
           isSolid (tileQ lvl \<lfloor>(y p + dy p * dt) / TILE_SIZE\<rfloor> tx)
      then p\<lparr> y := of_int (\<lfloor>(y p + dy p * dt) / TILE_SIZE\<rfloor> + 1) * TILE_SIZE, dy := 0, grounded := False \<rparr>
      else p\<lparr> y := y p + dy p * dt, grounded := False \<rparr>)"
  unfolding tryPlayerMoveY_def Let_def moveYUp_eq
  by simp

lemma tryPlayerMoveY_down:
  "0 \<le> dy p \<Longrightarrow> tryPlayerMoveY lvl p dt =
     (if \<exists>tx \<in> {\<lfloor>x p / TILE_SIZE\<rfloor>..\<lfloor>(x p + w p - 1) / TILE_SIZE\<rfloor>}.
           isGround (tileQ lvl \<lfloor>(y p + dy p * dt + h p) / TILE_SIZE\<rfloor> tx)
           \<or> isPlatform (tileQ lvl \<lfloor>(y p + dy p * dt + h p) / TILE_SIZE\<rfloor> tx)
      then p\<lparr> y := of_int \<lfloor>(y p + dy p * dt + h p) / TILE_SIZE\<rfloor> * TILE_SIZE - h p, dy := 0,
               grounded := True, coyote := coyoteMs PHYS \<rparr>
      else p\<lparr> y := y p + dy p * dt, grounded := False \<rparr>)"
  unfolding tryPlayerMoveY_def Let_def moveYDown_eq
  by simp


text \<open>
  C1, as stated, fails: \<open>isSolid\<close> holds of the platform code 2, and both the horizontal probe
  and the upward probe test \<open>isSolid\<close>. On the first level a player running right is stopped
  at the platform tile of row 7, column 4 (snapped to \<open>x = 78\<close>, \<open>dx = 0\<close>), and a player
  rising under the platform tile of row 3, column 3 is stopped below it (\<open>y = 96\<close>,
  \<open>dy = 0\<close>).
\<close>

theorem platform_solid_counterexample:
  "tileQ level1 7 4 = Tile 2
   \<and> getTile level1 (77 + 78 / 60 + 18) (170 + 22 / 2) = Some (Tile 2)
   \<and> map_option player (stepGame intoPlatform noKeys (1 / 60)) =
       Some \<lparr>x = 78, y = 170, w = 18, h = 22, dx = 0, dy = 0, dead = False,
          dir = 1, grounded = True, jumping = False, wantsJump = False,
          coyote = 100, invuln = 0, animTimer = 1 / 60, frame = 0,
          respawnTimer = 0, hitLives = None\<rparr>
   \<and> tileQ level1 3 3 = Tile 2
   \<and> map_option player (stepGame underPlatform noKeys (1 / 60)) =
       Some \<lparr>x = 75, y = 96, w = 18, h = 22, dx = 0, dy = 0, dead = False,
          dir = 1, grounded = False, jumping = False, wantsJump = False,
          coyote = 0, invuln = 0, animTimer = 1 / 60, frame = 0,
          respawnTimer = 0, hitLives = None\<rparr>"
  by (simp add: intoPlatform_def underPlatform_def mkInitialGameState_eq stepEval
           cong: let_weak_cong)

text \<open>
  C1 (amended): platform tiles are solid in every direction. The horizontal resolution snaps
  the box and zeroes \<open>dx\<close> exactly when the probed tile is ground, platform or flag; the
  upward probe snaps and zeroes \<open>dy\<close> exactly when a tile of the row at the new top edge is
  ground, platform or flag; the downward probe lands the player exactly when a tile of the row
  at the new bottom edge is ground or platform.
\<close>

theorem platform_solid:
  "(\<lfloor>y p / TILE_SIZE\<rfloor> \<le> \<lfloor>(y p + h p - 1) / TILE_SIZE\<rfloor>
      \<and> getTile lvl (probeX p dt) (y p + h p / 2) = Some t \<longrightarrow>
    tryPlayerMoveX lvl p dt =
      Some (if t = Tile 1 \<or> t = Tile 2 \<or> t = Tile 5
            then p\<lparr> x := (if dx p > 0
                            then of_int \<lfloor>(x p + dx p * dt + w p) / TILE_SIZE\<rfloor> * TILE_SIZE - w p
                            else of_int (\<lfloor>(x p + dx p * dt) / TILE_SIZE\<rfloor> + 1) * TILE_SIZE),
                     dx := 0 \<rparr>
            else p\<lparr> x := x p + dx p * dt \<rparr>))
   \<and> (dy p < 0 \<longrightarrow>
    tryPlayerMoveY lvl p dt =
      (if \<exists>tx \<in> {\<lfloor>x p / TILE_SIZE\<rfloor>..\<lfloor>(x p + w p - 1) / TILE_SIZE\<rfloor>}.
            tileQ lvl \<lfloor>(y p + dy p * dt) / TILE_SIZE\<rfloor> tx \<in> {Tile 1, Tile 2, Tile 5}
       then p\<lparr> y := of_int (\<lfloor>(y p + dy p * dt) / TILE_SIZE\<rfloor> + 1) * TILE_SIZE, dy := 0,
                grounded := False \<rparr>
       else p\<lparr> y := y p + dy p * dt, grounded := False \<rparr>))
   \<and> (0 \<le> dy p \<longrightarrow>
    tryPlayerMoveY lvl p dt =
      (if \<exists>tx \<in> {\<lfloor>x p / TILE_SIZE\<rfloor>..\<lfloor>(x p + w p - 1) / TILE_SIZE\<rfloor>}.
            tileQ lvl \<lfloor>(y p + dy p * dt + h p) / TILE_SIZE\<rfloor> tx \<in> {Tile 1, Tile 2}
       then p\<lparr> y := of_int \<lfloor>(y p + dy p * dt + h p) / TILE_SIZE\<rfloor> * TILE_SIZE - h p, dy := 0,
                grounded := True, coyote := coyoteMs PHYS \<rparr>
       else p\<lparr> y := y p + dy p * dt, grounded := False \<rparr>))"
proof (intro conjI impI)
  assume "\<lfloor>y p / TILE_SIZE\<rfloor> \<le> \<lfloor>(y p + h p - 1) / TILE_SIZE\<rfloor>
      \<and> getTile lvl (probeX p dt) (y p + h p / 2) = Some t"
  then show "tryPlayerMoveX lvl p dt =
      Some (if t = Tile 1 \<or> t = Tile 2 \<or> t = Tile 5
            then p\<lparr> x := (if dx p > 0
                            then of_int \<lfloor>(x p + dx p * dt + w p) / TILE_SIZE\<rfloor> * TILE_SIZE - w p
                            else of_int (\<lfloor>(x p + dx p * dt) / TILE_SIZE\<rfloor> + 1) * TILE_SIZE),
                     dx := 0 \<rparr>
            else p\<lparr> x := x p + dx p * dt \<rparr>)"
    by (simp add: tryPlayerMoveX_eq isSolid_def)
next
  assume "dy p < 0"
  then show "tryPlayerMoveY lvl p dt =
      (if \<exists>tx \<in> {\<lfloor>x p / TILE_SIZE\<rfloor>..\<lfloor>(x p + w p - 1) / TILE_SIZE\<rfloor>}.
            tileQ lvl \<lfloor>(y p + dy p * dt) / TILE_SIZE\<rfloor> tx \<in> {Tile 1, Tile 2, Tile 5}
       then p\<lparr> y := of_int (\<lfloor>(y p + dy p * dt) / TILE_SIZE\<rfloor> + 1) * TILE_SIZE, dy := 0,
                grounded := False \<rparr>
       else p\<lparr> y := y p + dy p * dt, grounded := False \<rparr>)"
    by (simp add: tryPlayerMoveY_up isSolid_def)
next
  assume "0 \<le> dy p"
  then show "tryPlayerMoveY lvl p dt =
      (if \<exists>tx \<in> {\<lfloor>x p / TILE_SIZE\<rfloor>..\<lfloor>(x p + w p - 1) / TILE_SIZE\<rfloor>}.
            tileQ lvl \<lfloor>(y p + dy p * dt + h p) / TILE_SIZE\<rfloor> tx \<in> {Tile 1, Tile 2}
       then p\<lparr> y := of_int \<lfloor>(y p + dy p * dt + h p) / TILE_SIZE\<rfloor> * TILE_SIZE - h p, dy := 0,
                grounded := True, coyote := coyoteMs PHYS \<rparr>
       else p\<lparr> y := y p + dy p * dt, grounded := False \<rparr>)"
    by (simp add: tryPlayerMoveY_down isGround_def isPlatform_def)
qed


theorem platform_solid_witness:
  "\<lfloor>y runner / TILE_SIZE\<rfloor> \<le> \<lfloor>(y runner + h runner - 1) / TILE_SIZE\<rfloor>
   \<and> getTile level1 (probeX runner (1 / 60)) (y runner + h runner / 2) = Some (Tile 2)
   \<and> tryPlayerMoveX level1 runner (1 / 60) = Some (runner\<lparr> x := 78, dx := 0 \<rparr>)
   \<and> 0 \<le> dy runner
   \<and> tryPlayerMoveY level1 runner (1 / 60) = runner\<lparr> y := 170, dy := 0, grounded := True, coyote := 100 \<rparr>
   \<and> dy riser < 0
   \<and> tryPlayerMoveY level1 riser (1 / 60) = riser\<lparr> y := 96, dy := 0, grounded := False \<rparr>"
  using platform_solid [of runner level1 "1 / 60" "Tile 2"] platform_solid [of riser level1 "1 / 60"]
  by (simp add: runner_def riser_def probeX_def mkInitialGameState_eq getTile_def tileQ_def rowAt_def
        cellAt_def px2tile_def TILE_SIZE_def PHYS_def level1_def)

section \<open>The player against the enemies\<close>

lemma arenaStart_eq:
  "arenaStart =
    \<lparr>level = arena,
     player = \<lparr>x = 24, y = 96, w = 18, h = 22, dx = 0, dy = 0, dead = False, dir = 1,
        grounded = False, jumping = False, wantsJump = False, coyote = 0,
        invuln = 0, animTimer = 0, frame = 0, respawnTimer = 0, hitLives = None\<rparr>,
     camera = \<lparr>x = 0, y = 0\<rparr>,
     enemies =
       [\<lparr>x = 72, y = 24, w = 20, h = 18, dx = 60, dy = 0, dead = False,
           patrolRange = \<lparr>bmin = 24, bmax = 120\<rparr>\<rparr>,
        \<lparr>x = 96, y = 24, w = 20, h = 18, dx = 60, dy = 0, dead = False,
           patrolRange = \<lparr>bmin = 48, bmax = 144\<rparr>\<rparr>],
     coins =
       [\<lparr>x = 30, y = 53, r = 6, collected = False\<rparr>,
        \<lparr>x = 54, y = 53, r = 6, collected = False\<rparr>],
     collectedCoins = [], score = 0, lives = 3, win = False, timer = 0, started = True\<rparr>"
  by (simp add: arenaStart_def mkInitialGameStateOf_def findSpawns_def findCoins_def
        scanLevel_def arena_def cellAt_def isEnemy_def isCoin_def upt_conv_Cons
        mkEnemy_def mkCoin_def tile2px_def TILE_SIZE_def PHYS_def initialLives_def Let_def)

lemmas arenaEval = stepEval arena_def upto.simps


lemma step_enemies:
  assumes "stepGame st ks dt = Some st'"
  shows "length (enemies st') = length (enemies st)"
    and "\<exists>S. (S = {} \<or> (\<exists>i. S = {i})) \<and>
           (\<forall>j < length (enemies st). dead (enemies st' ! j) = (dead (enemies st ! j) \<or> j \<in> S))"
proof -
  from assms obtain m es m' es' sp d where
    ea: "enemyAI (level st) dt (enemies st) = Some es" and
    ep: "enemyPass (lives st) [0..<length es] (m, es, [], False) = (m', es', sp, d)" and
    en: "enemies st' = es'"
    by (rule stepGame_Some)
  have len: "length es = length (enemies st)" using enemyAI_length [OF ea] .
  from enemyPass_length [OF ep] len en show "length (enemies st') = length (enemies st)" by simp
  from enemyPass_stomps [OF ep]
  consider "es' = es" | i where "i < length es" "es' = es[i := (es ! i)\<lparr> dead := True \<rparr>]"
    by auto
  then have "\<exists>S. (S = {} \<or> (\<exists>i. S = {i})) \<and>
           (\<forall>j < length (enemies st). dead (es' ! j) = (dead (enemies st ! j) \<or> j \<in> S))"
  proof cases
    case 1
    then have "\<forall>j < length (enemies st). dead (es' ! j) = (dead (enemies st ! j) \<or> j \<in> {})"
      using enemyAI_nth_dead [OF ea] by simp
    then show ?thesis by blast
  next
    case 2
    then have "\<forall>j < length (enemies st). dead (es' ! j) = (dead (enemies st ! j) \<or> j \<in> {i})"
      using enemyAI_nth_dead [OF ea] len by (auto simp: nth_list_update)
    then show ?thesis by blast
  qed
  with en show "\<exists>S. (S = {} \<or> (\<exists>i. S = {i})) \<and>
           (\<forall>j < length (enemies st). dead (enemies st' ! j) = (dead (enemies st ! j) \<or> j \<in> S))"
    by simp
qed

















section \<open>Score, flag and coins\<close>

lemma filter_dead_update:
  "i < length es \<Longrightarrow> \<not> dead (es ! i) \<Longrightarrow>
     length (filter dead (es[i := (es ! i)\<lparr> dead := True \<rparr>])) = Suc (length (filter dead es))"
proof (induction es arbitrary: i)
  case Nil
  then show ?case by simp
next
  case (Cons e es)
  then show ?case by (cases i) simp_all
qed

lemma enemyAI_deadCount:
  assumes "enemyAI lvl dt es = Some exs"
  shows "deadCount exs = deadCount es"
proof -
  have "length (filter dead exs) = length (filter id (map dead exs))"
    by (simp add: filter_map comp_def)
  also have "\<dots> = length (filter id (map dead es))" using enemyAI_dead [OF assms] by simp
  also have "\<dots> = length (filter dead es)" by (simp add: filter_map comp_def)
  finally show ?thesis by (simp add: deadCount_def)
qed

lemma enemyPass_deadCount:
  assumes "enemyPass lv [0..<length es] (m, es, [], d) = (m', es', sp, d')"
  shows "deadCount es' = deadCount es + int (length sp)"
  using enemyPass_stomps [OF assms] by (auto simp: deadCount_def filter_dead_update)

text \<open>The account of the score: ten per coin picked, fifty per enemy stomped, a hundred for the
  flag.\<close>

lemma step_score:
  assumes "stepGame st ks dt = Some st'"
  shows "score st' = score st
           + 10 * (int (length (collectedCoins st')) - int (length (collectedCoins st)))
           + 50 * (deadCount (enemies st') - deadCount (enemies st))
           + (if win st' then 100 else 0)"
proof -
  from assms obtain m es m' es' sp d t where
    ea: "enemyAI (level st) dt (enemies st) = Some es" and
    ep: "enemyPass (lives st) [0..<length es] (m, es, [], False) = (m', es', sp, d)" and
    en: "enemies st' = es'" and
    cp: "(coins st', collectedCoins st', score st' - score st - (if isFlag t then 100 else 0) - int (length sp) * 50)
       = coinPass (getPlayerRect m') [0..<length (coins st)] (coins st, collectedCoins st, 0)" and
    wn: "win st' = isFlag t"
    by (rule stepGame_Some)
  from cp have "collectedCoins st' = collectedCoins st
        @ filter (\<lambda>i. picks (getPlayerRect m') (coins st ! i)) [0..<length (coins st)]"
    and "score st' - score st - (if isFlag t then 100 else 0) - int (length sp) * 50
        = 10 * int (length (filter (\<lambda>i. picks (getPlayerRect m') (coins st ! i)) [0..<length (coins st)]))"
    by (simp_all add: coinPass_all)
  then have "score st' - score st - (if isFlag t then 100 else 0) - int (length sp) * 50
      = 10 * (int (length (collectedCoins st')) - int (length (collectedCoins st)))" by simp
  moreover have "deadCount (enemies st') - deadCount (enemies st) = int (length sp)"
    using enemyPass_deadCount [OF ep] enemyAI_deadCount [OF ea] en by simp
  ultimately show ?thesis using wn by simp
qed

lemma stepGame_win_irrelevant: "stepGame (st\<lparr> win := b \<rparr>) ks dt = stepGame st ks dt"
  by (simp add: stepGame_def interact_def Let_def split: option.splits prod.splits)

lemma step_win:
  assumes "stepGame st ks dt = Some st'"
  shows "\<exists>m t. movePlayer (level st) ks dt (player st) = Some m
           \<and> getTile (level st) (x m + w m / 2) (y m + h m / 2) = Some t \<and> win st' = (t = Tile 5)"
proof -
  from assms obtain m es m' es' sp d t where
    m: "movePlayer (level st) ks dt (player st) = Some m" and
    ep: "enemyPass (lives st) [0..<length es] (m, es, [], False) = (m', es', sp, d)" and
    t: "getTile (level st) (x m' + w m' / 2) (y m' + h m' / 2) = Some t" and
    wn: "win st' = isFlag t"
    by (rule stepGame_Some)
  from enemyPass_box [OF ep] t have "getTile (level st) (x m + w m / 2) (y m + h m / 2) = Some t"
    by simp
  with m wn show ?thesis by (auto simp: isFlag_def)
qed

text \<open>
  C4, as stated, fails: the step computes \<open>win\<close> afresh and never reads the previous flag.
  With the win already recorded and the player still in the flag tile, one more step adds 100
  again (100 to 200), and a second one again (300).
\<close>

theorem win_bonus_counterexample:
  "win onFlag \<and> score onFlag = 100
   \<and> map_option win (stepGame onFlag noKeys (1 / 60)) = Some True
   \<and> map_option score (stepGame onFlag noKeys (1 / 60)) = Some 200
   \<and> map_option score (runGame onFlag [(noKeys, 1 / 60), (noKeys, 1 / 60)]) = Some 300"
  by (simp add: onFlag_def mkInitialGameState_eq stepEval cong: let_weak_cong)

text \<open>
  C4 (amended): the step sets \<open>win\<close> exactly when the tile under the centre of the moved
  player is the flag, and then adds the bonus of 100 to the score, beside 10 per coin picked and
  50 per enemy stomped in that step. It does so in every step where this holds: the result of a
  step does not depend on the previous win flag.
\<close>

theorem win_bonus_every_tick:
  assumes "stepGame st ks dt = Some st'"
  shows "(\<exists>m t. movePlayer (level st) ks dt (player st) = Some m
           \<and> getTile (level st) (x m + w m / 2) (y m + h m / 2) = Some t \<and> win st' = (t = Tile 5))
       \<and> score st' = score st
           + 10 * (int (length (collectedCoins st')) - int (length (collectedCoins st)))
           + 50 * (deadCount (enemies st') - deadCount (enemies st))
           + (if win st' then 100 else 0)
       \<and> stepGame (st\<lparr> win := b \<rparr>) ks dt = Some st'"
  using step_win [OF assms] step_score [OF assms] assms by (simp add: stepGame_win_irrelevant)

theorem win_bonus_every_tick_witness:
  "map_option score (stepGame onFlag noKeys (1 / 60)) = Some (score onFlag + 100)
   \<and> map_option win (stepGame onFlag noKeys (1 / 60)) = Some True
   \<and> stepGame (onFlag\<lparr> win := False \<rparr>) noKeys (1 / 60) = stepGame onFlag noKeys (1 / 60)"
proof -
  have e: "map_option score (stepGame onFlag noKeys (1 / 60)) = Some (score onFlag + 100)"
    "map_option win (stepGame onFlag noKeys (1 / 60)) = Some True"
    by (simp_all add: onFlag_def mkInitialGameState_eq stepEval cong: let_weak_cong)
  then obtain st' where s: "stepGame onFlag noKeys (1 / 60) = Some st'" by auto
  from win_bonus_every_tick [OF s, of False] e s show ?thesis by simp
qed

lemma step_coins:
  assumes "stepGame st ks dt = Some st'" and "movePlayer (level st) ks dt (player st) = Some m"
  shows "collectedCoins st' = collectedCoins st
           @ filter (\<lambda>i. picks (getPlayerRect m) (coins st ! i)) [0..<length (coins st)]"
    and "coins st' = map (\<lambda>c. if picks (getPlayerRect m) c then c\<lparr> collected := True \<rparr> else c) (coins st)"
proof -
  from assms(1) obtain m0 es m' es' sp d t where
    m0: "movePlayer (level st) ks dt (player st) = Some m0" and
    ep: "enemyPass (lives st) [0..<length es] (m0, es, [], False) = (m', es', sp, d)" and
    cp: "(coins st', collectedCoins st', score st' - score st - (if isFlag t then 100 else 0) - int (length sp) * 50)
       = coinPass (getPlayerRect m') [0..<length (coins st)] (coins st, collectedCoins st, 0)"
    by (rule stepGame_Some)
  from m0 assms(2) have "m0 = m" by simp
  with enemyPass_box [OF ep] have "getPlayerRect m' = getPlayerRect m"
    by (simp add: getPlayerRect_def)
  with cp show "collectedCoins st' = collectedCoins st
           @ filter (\<lambda>i. picks (getPlayerRect m) (coins st ! i)) [0..<length (coins st)]"
    and "coins st' = map (\<lambda>c. if picks (getPlayerRect m) c then c\<lparr> collected := True \<rparr> else c) (coins st)"
    by (simp_all add: coinPass_all)
qed

lemma step_coinsOK:
  assumes "stepGame st ks dt = Some st'" and "coinsOK st"
  shows "coinsOK st'"
proof -
  from assms(1) obtain m where m: "movePlayer (level st) ks dt (player st) = Some m"
    by (rule stepGame_Some)
  let ?new = "filter (\<lambda>i. picks (getPlayerRect m) (coins st ! i)) [0..<length (coins st)]"
  note c = step_coins [OF assms(1) m]
  have fresh: "set ?new \<inter> set (collectedCoins st) = {}"
    using assms(2) by (auto simp: coinsOK_def picks_def)
  have d: "distinct (collectedCoins st')"
    using assms(2) fresh unfolding c(1) by (auto simp: coinsOK_def)
  have old: "\<forall>i \<in> set (collectedCoins st). i < length (coins st') \<and> collected (coins st' ! i)"
    using assms(2) unfolding c(2) by (simp add: coinsOK_def)
  have new: "\<forall>i \<in> set ?new. i < length (coins st') \<and> collected (coins st' ! i)"
    unfolding c(2) by simp
  from d old new show ?thesis unfolding coinsOK_def c(1) by auto
qed

text \<open>
  C9: the coins picked in a step are exactly those not yet collected whose circle meets the
  moved player's box, each once and in collection order: they are tombstoned, their indices are
  appended to \<open>collectedCoins\<close> and the score grows by 10 for each (beside 50 per stomp and
  100 for the flag). A coin already collected is neither appended nor scored again, so the
  list of collected indices stays free of duplicates. Several coins can be picked in one step.
\<close>

theorem coin_pickup:
  assumes "stepGame st ks dt = Some st'" and "movePlayer (level st) ks dt (player st) = Some m"
  shows "collectedCoins st' = collectedCoins st
           @ filter (\<lambda>i. \<not> collected (coins st ! i)
                         \<and> circleBoxCollide (x (coins st ! i)) (y (coins st ! i)) (r (coins st ! i))
                             (getPlayerRect m))
               [0..<length (coins st)]
       \<and> coins st' = map (\<lambda>c. if \<not> collected c \<and> circleBoxCollide (x c) (y c) (r c) (getPlayerRect m)
                                then c\<lparr> collected := True \<rparr> else c) (coins st)
       \<and> score st' = score st
           + 10 * (int (length (collectedCoins st')) - int (length (collectedCoins st)))
           + 50 * (deadCount (enemies st') - deadCount (enemies st))
           + (if win st' then 100 else 0)
       \<and> (coinsOK st \<longrightarrow> coinsOK st')"
  using step_coins [OF assms] step_score [OF assms(1)] step_coinsOK [OF assms(1)]
  by (simp add: picks_def)

theorem coin_pickup_witness:
  "coinsOK twoCoins \<and> collectedCoins twoCoins = [] \<and> score twoCoins = 0
   \<and> movePlayer (level twoCoins) noKeys (1 / 50) (player twoCoins) = Some collector
   \<and> map_option collectedCoins (stepGame twoCoins noKeys (1 / 50)) = Some [0, 1]
   \<and> map_option coins (stepGame twoCoins noKeys (1 / 50)) =
        Some [\<lparr>x = 30, y = 53, r = 6, collected = True\<rparr>, \<lparr>x = 54, y = 53, r = 6, collected = True\<rparr>]
   \<and> map_option score (stepGame twoCoins noKeys (1 / 50)) = Some 20
   \<and> coinsOK oneCoin \<and> collectedCoins oneCoin = [0] \<and> score oneCoin = 10
   \<and> circleBoxCollide 30 53 6 (getPlayerRect collector)
   \<and> movePlayer (level oneCoin) noKeys (1 / 50) (player oneCoin) = Some collector
   \<and> map_option collectedCoins (stepGame oneCoin noKeys (1 / 50)) = Some [0, 1]
   \<and> map_option score (stepGame oneCoin noKeys (1 / 50)) = Some 20"
proof -
  have ok: "coinsOK twoCoins" "collectedCoins twoCoins = []" "score twoCoins = 0"
    "coinsOK oneCoin" "collectedCoins oneCoin = [0]" "score oneCoin = 10"
    by (simp_all add: coinsOK_def oneCoin_def twoCoins_def arenaStart_eq)
  have m: "movePlayer (level twoCoins) noKeys (1 / 50) (player twoCoins) = Some collector"
    "movePlayer (level oneCoin) noKeys (1 / 50) (player oneCoin) = Some collector"
    by (simp_all add: oneCoin_def twoCoins_def collector_def arenaStart_eq arenaEval cong: let_weak_cong)
  have c: "circleBoxCollide 30 53 6 (getPlayerRect collector)"
    by (simp add: collector_def arenaStart_eq circleBoxCollide_def getPlayerRect_def clamp_def)
  have e: "map_option collectedCoins (stepGame twoCoins noKeys (1 / 50)) = Some [0, 1]"
    "map_option coins (stepGame twoCoins noKeys (1 / 50)) =
        Some [\<lparr>x = 30, y = 53, r = 6, collected = True\<rparr>, \<lparr>x = 54, y = 53, r = 6, collected = True\<rparr>]"
    "map_option score (stepGame twoCoins noKeys (1 / 50)) = Some 20"
    by (simp_all add: twoCoins_def arenaStart_eq arenaEval cong: let_weak_cong)
  have r: "map_option collectedCoins (stepGame oneCoin noKeys (1 / 50)) = Some [0, 1]"
    "map_option score (stepGame oneCoin noKeys (1 / 50)) = Some 20"
    by (simp_all add: oneCoin_def twoCoins_def arenaStart_eq arenaEval cong: let_weak_cong)
  from e(1) obtain s2 where s2: "stepGame twoCoins noKeys (1 / 50) = Some s2" by auto
  from r(1) obtain s1 where s1: "stepGame oneCoin noKeys (1 / 50) = Some s1" by auto
  from coin_pickup [OF s2 m(1)] ok(1) have "coinsOK s2" by simp
  moreover from coin_pickup [OF s1 m(2)] ok(4) have "coinsOK s1" by simp
  ultimately show ?thesis using ok m c e r by simp
qed

section \<open>Respawn\<close>

lemma stomped_idem [simp]: "stomped (stomped m) = stomped m"
  by (simp add: stomped_def)

lemma enemyPass_player:
  "enemyPass lv is (m, es, sp, False) = (m', es', sp', d') \<Longrightarrow> \<not> d' \<Longrightarrow> m' = m \<or> m' = stomped m"
proof (induction "is" arbitrary: m es sp)
  case Nil
  then show ?case by simp
next
  case (Cons i "is")
  show ?case
  proof (cases rule: enemyPass_Cons [of es i m lv "is" sp False])
    case skip
    with Cons show ?thesis by simp
  next
    case stomp
    with Cons.prems have "enemyPass lv is (stomped m, es[i := (es ! i)\<lparr> dead := True \<rparr>], sp @ [i], False)
      = (m', es', sp', d')" by simp
    from Cons.IH [OF this Cons.prems(2)] show ?thesis by simp
  next
    case hit
    with Cons.prems show ?thesis by simp
  qed
qed

lemma deathRespawn_completes:
  "dead m \<Longrightarrow> respawnTimer m \<le> dt \<Longrightarrow>
     deathRespawn lvl dt m =
       m\<lparr> x := 24, y := 96, dx := 0, dy := 0, dir := 1, grounded := False, dead := False,
          invuln := invulnMs PHYS, respawnTimer := respawnTimer m - dt \<rparr>"
  by (simp add: deathRespawn_def Let_def findSpawns_def tile2px_def TILE_SIZE_def)

lemma step_collected_prefix:
  assumes "stepGame st ks dt = Some st'"
  shows "take (length (collectedCoins st)) (collectedCoins st') = collectedCoins st"
proof -
  from assms obtain m where m: "movePlayer (level st) ks dt (player st) = Some m"
    by (rule stepGame_Some)
  from step_coins(1) [OF assms m] show ?thesis by simp
qed

text \<open>
  C8, as stated, fails: the collision passes run for a dead player too, so the step in which
  the respawn completes can pick a coin. On the first level the dead player standing over the
  coin of index 7 respawns at the spawn point while the score goes from 50 to 60 and
  \<open>collectedCoins\<close> from empty to \<open>[7]\<close>.
\<close>

theorem respawn_resets_player_only_counterexample:
  "dead (player respawning) \<and> respawnTimer (player respawning) \<le> 1 / 50
   \<and> score respawning = 50 \<and> collectedCoins respawning = []
   \<and> map_option score (stepGame respawning noKeys (1 / 50)) = Some 60
   \<and> map_option collectedCoins (stepGame respawning noKeys (1 / 50)) = Some [7]
   \<and> map_option player (stepGame respawning noKeys (1 / 50)) =
        Some \<lparr>x = 24, y = 96, w = 18, h = 22, dx = 0, dy = 0, dead = False,
               dir = 1, grounded = False, jumping = False,
               wantsJump = False, coyote = 100, invuln = 1100,
               animTimer = 1 / 50, frame = 0, respawnTimer = - (1 / 100),
               hitLives = Some 2\<rparr>"
  by (simp add: respawning_def mkInitialGameState_eq stepEval cong: let_weak_cong)

text \<open>
  C8 (amended): in a step in which the respawn of a dead, invulnerable player completes, the
  respawn resets nothing but the player: the returned player is the moved player with position
  set to the spawn point (clamped to the world), velocity 0, direction 1, not grounded, not
  dead, invulnerability at its full value, and the respawn timer counted down. The lives are
  unchanged; \<open>collectedCoins\<close> keeps the previous sequence as its beginning, every tombstoned
  enemy stays tombstoned, and the score is the previous one plus what the collision passes of
  that same step award (10 per coin, 50 per stomp, 100 for the flag).
\<close>

theorem respawn_resets_player_only:
  assumes "stepGame st ks dt = Some st'" and "movePlayer (level st) ks dt (player st) = Some m"
    and "dead (player st)" and "0 < invuln (player st)" and "respawnTimer (player st) \<le> dt"
  shows "player st' = clampToWorld (level st)
            (m\<lparr> x := 24, y := 96, dx := 0, dy := 0, dir := 1, grounded := False, dead := False,
                invuln := invulnMs PHYS, respawnTimer := respawnTimer (player st) - dt \<rparr>)
       \<and> (livesOK st \<longrightarrow> lives st' = lives st)
       \<and> take (length (collectedCoins st)) (collectedCoins st') = collectedCoins st
       \<and> length (enemies st') = length (enemies st)
       \<and> (\<forall>j < length (enemies st). dead (enemies st ! j) \<longrightarrow> dead (enemies st' ! j))
       \<and> score st' = score st
           + 10 * (int (length (collectedCoins st')) - int (length (collectedCoins st)))
           + 50 * (deadCount (enemies st') - deadCount (enemies st))
           + (if win st' then 100 else 0)"
proof -
  from assms(1) obtain m0 es m' es' sp d where
    m0: "movePlayer (level st) ks dt (player st) = Some m0" and
    ep0: "enemyPass (lives st) [0..<length es] (m0, es, [], False) = (m', es', sp, d)" and
    pl: "player st' = clampToWorld (level st) (deathRespawn (level st) dt m')" and
    lv: "lives st' = (case hitLives m' of None \<Rightarrow> lives st | Some l \<Rightarrow> l)"
    by (rule stepGame_Some)
  from m0 assms(2) have "m0 = m" by simp
  with ep0 have ep: "enemyPass (lives st) [0..<length es] (m, es, [], False) = (m', es', sp, d)"
    by simp
  note fr = movePlayer_frame [OF assms(2)]
  from fr(4) assms(4) have "0 < invuln m" by simp
  from enemyPass_invuln [OF this ep] have nd: "\<not> d" by simp
  from enemyPass_hit [OF ep] nd fr assms(3)
  have f: "dead m'" "respawnTimer m' = respawnTimer (player st)" "hitLives m' = hitLives (player st)"
    by simp_all
  from enemyPass_player [OF ep nd] have "m' = m \<or> m' = stomped m" .
  then have "m'\<lparr> x := 24, y := 96, dx := 0, dy := 0, dir := 1, grounded := False, dead := False,
          invuln := invulnMs PHYS, respawnTimer := respawnTimer m' - dt \<rparr>
     = m\<lparr> x := 24, y := 96, dx := 0, dy := 0, dir := 1, grounded := False, dead := False,
          invuln := invulnMs PHYS, respawnTimer := respawnTimer (player st) - dt \<rparr>"
    using f(2) fr(5) by (auto simp: stomped_def)
  with deathRespawn_completes [of m' dt "level st"] f assms(5) pl
  have a: "player st' = clampToWorld (level st)
            (m\<lparr> x := 24, y := 96, dx := 0, dy := 0, dir := 1, grounded := False, dead := False,
                invuln := invulnMs PHYS, respawnTimer := respawnTimer (player st) - dt \<rparr>)"
    by simp
  from f(3) lv have b: "livesOK st \<longrightarrow> lives st' = lives st" by (auto simp: livesOK_def)
  from step_enemies(2) [OF assms(1)]
  have e: "\<forall>j < length (enemies st). dead (enemies st ! j) \<longrightarrow> dead (enemies st' ! j)" by auto
  from a b e step_collected_prefix [OF assms(1)] step_enemies(1) [OF assms(1)] step_score [OF assms(1)]
  show ?thesis by simp
qed

theorem respawn_resets_player_only_witness:
  "movePlayer (level respawning) noKeys (1 / 50) (player respawning) = Some riseAgain
   \<and> dead (player respawning) \<and> 0 < invuln (player respawning)
   \<and> respawnTimer (player respawning) \<le> 1 / 50 \<and> livesOK respawning
   \<and> length (enemies respawning) = 5 \<and> dead (enemies respawning ! 0)
   \<and> map_option (map dead) (map_option enemies (stepGame respawning noKeys (1 / 50)))
        = Some [True, False, False, False, False]
   \<and> map_option player (stepGame respawning noKeys (1 / 50)) =
        Some (riseAgain\<lparr> x := 24, y := 96, dead := False, grounded := False,
                respawnTimer := - (1 / 100) \<rparr>)
   \<and> map_option lives (stepGame respawning noKeys (1 / 50)) = Some (lives respawning)
   \<and> map_option score (stepGame respawning noKeys (1 / 50)) = Some 60
   \<and> map_option collectedCoins (stepGame respawning noKeys (1 / 50)) = Some [7]"
proof -
  have h: "dead (player respawning)" "0 < invuln (player respawning)"
    "respawnTimer (player respawning) \<le> 1 / 50" "livesOK respawning"
    "length (enemies respawning) = 5" "dead (enemies respawning ! 0)"
    by (simp_all add: respawning_def livesOK_def mkInitialGameState_eq)
  have m: "movePlayer (level respawning) noKeys (1 / 50) (player respawning) = Some riseAgain"
    by (simp add: riseAgain_def respawning_def mkInitialGameState_eq stepEval cong: let_weak_cong)
  have e: "map_option player (stepGame respawning noKeys (1 / 50)) =
        Some (riseAgain\<lparr> x := 24, y := 96, dead := False, grounded := False,
                respawnTimer := - (1 / 100) \<rparr>)"
    "map_option lives (stepGame respawning noKeys (1 / 50)) = Some (lives respawning)"
    "map_option score (stepGame respawning noKeys (1 / 50)) = Some 60"
    "map_option collectedCoins (stepGame respawning noKeys (1 / 50)) = Some [7]"
    "map_option (map dead) (map_option enemies (stepGame respawning noKeys (1 / 50)))
        = Some [True, False, False, False, False]"
    by (simp_all add: riseAgain_def respawning_def mkInitialGameState_eq stepEval
          cong: let_weak_cong)
  from e(1) obtain st' where s: "stepGame respawning noKeys (1 / 50) = Some st'" by auto
  from respawn_resets_player_only [OF s m h(1,2,3)] h(4) s
  have "lives st' = lives respawning" by simp
  with h m e show ?thesis by simp
qed

section \<open>The time delta\<close>





section \<open>Loading a level\<close>

lemma set_scanLevel:
  "set (scanLevel P lvl) =
     {(int tx, int ty) | tx ty. ty < length (tiles lvl) \<and> tx < nat (width lvl)
        \<and> P (cellAt (tiles lvl ! ty) (int tx))}"
  by (auto simp: scanLevel_def)

text \<open>
  C7, as stated, fails: nothing validates the level. From the level \<open>ragged\<close> (rows of the
  wrong length, too few rows, no tile at the spawn point) the construction returns a state like
  from any other level.
\<close>

theorem no_level_validation_counterexample:
  "\<not> wellFormed ragged
   \<and> rowAt (tiles ragged) 5 = None
   \<and> mkInitialGameStateOf ragged =
     \<lparr> level = ragged,
       player = \<lparr> x = 24, y = 96, w = 18, h = 22, dx = 0, dy = 0, dead = False,
                  dir = 1, grounded = False, jumping = False, wantsJump = False,
                  coyote = 0, invuln = 0, animTimer = 0, frame = 0,
                  respawnTimer = 0, hitLives = None \<rparr>,
       camera = \<lparr> x = 0, y = 0 \<rparr>,
       enemies = [\<lparr>x = 24, y = 0, w = 20, h = 18, dx = 60, dy = 0, dead = False,
                   patrolRange = \<lparr>bmin = - 24, bmax = 72\<rparr>\<rparr>],
       coins = [\<lparr>x = 6, y = 29, r = 6, collected = False\<rparr>],
       collectedCoins = [], score = 0, lives = 3, win = False, timer = 0, started = True \<rparr>"
  by (simp add: wellFormed_def ragged_def mkInitialGameStateOf_def findSpawns_def findCoins_def
        scanLevel_def cellAt_def rowAt_def isEnemy_def isCoin_def upt_conv_Cons
        mkEnemy_def mkCoin_def tile2px_def TILE_SIZE_def PHYS_def initialLives_def Let_def)

text \<open>
  C7 (amended): the construction of the initial state succeeds for every level, well-formed or
  not. The player is placed at the fixed spawn tile (1, 5), that is at (24, 96), whatever the
  tiles hold; enemies and coins are created for exactly the cells holding the codes 4 and 3
  among the first \<open>width\<close> cells of the rows present, missing cells counting as neither.
\<close>

theorem no_level_validation:
  "mkInitialGameStateOf lvl =
     \<lparr> level = lvl,
       player = \<lparr> x = 24, y = 96, w = 18, h = 22, dx = 0, dy = 0, dead = False,
                  dir = 1, grounded = False, jumping = False, wantsJump = False,
                  coyote = 0, invuln = 0, animTimer = 0, frame = 0,
                  respawnTimer = 0, hitLives = None \<rparr>,
       camera = \<lparr> x = 0, y = 0 \<rparr>,
       enemies = map mkEnemy (enemy_spawns (findSpawns lvl)),
       coins = map mkCoin (findCoins lvl),
       collectedCoins = [], score = 0, lives = 3, win = False, timer = 0, started = True \<rparr>
   \<and> player_spawn (findSpawns lvl) = (1, 5)
   \<and> set (enemy_spawns (findSpawns lvl)) =
       {(int tx, int ty) | tx ty. ty < length (tiles lvl) \<and> tx < nat (width lvl)
          \<and> cellAt (tiles lvl ! ty) (int tx) = Tile 4}
   \<and> set (findCoins lvl) =
       {(int tx, int ty) | tx ty. ty < length (tiles lvl) \<and> tx < nat (width lvl)
          \<and> cellAt (tiles lvl ! ty) (int tx) = Tile 3}"
  by (simp add: mkInitialGameStateOf_def findSpawns_def findCoins_def set_scanLevel tile2px_def
        TILE_SIZE_def initialLives_def isEnemy_def isCoin_def Let_def)

section \<open>When the step returns\<close>

lemma getTile_total:
  "height lvl \<le> int (length (tiles lvl)) \<Longrightarrow> \<exists>t. getTile lvl px py = Some t"
  by (auto simp: getTile_def rowAt_def split: prod.splits)

lemma tryPlayerMoveX_total:
  assumes "height lvl \<le> int (length (tiles lvl))"
  shows "\<exists>q. tryPlayerMoveX lvl p dt = Some q"
proof -
  from getTile_total [OF assms] obtain t where "getTile lvl (probeX p dt) (y p + h p / 2) = Some t"
    by blast
  then show ?thesis by (simp add: tryPlayerMoveX_eq)
qed

lemma stepEnemy_total:
  assumes "height lvl \<le> int (length (tiles lvl))"
  shows "\<exists>ex. stepEnemy lvl dt e = Some ex"
proof (cases "dead e")
  case True
  then show ?thesis by (simp add: stepEnemy_def)
next
  case False
  let ?ex = "e\<lparr> dx := clamp (dx e) (- enemyPatrolSpeed PHYS) (enemyPatrolSpeed PHYS) \<rparr>"
  let ?ex2 = "?ex\<lparr> x := x ?ex + dx ?ex * dt \<rparr>"
  let ?ex3 = "if x ?ex2 < bmin (patrolRange ?ex2)
              then ?ex2\<lparr> x := bmin (patrolRange ?ex2), dx := \<bar>dx ?ex2\<bar> \<rparr>
              else if x ?ex2 > bmax (patrolRange ?ex2)
              then ?ex2\<lparr> x := bmax (patrolRange ?ex2), dx := - \<bar>dx ?ex2\<bar> \<rparr>
              else ?ex2"
  from getTile_total [OF assms] obtain t
    where "getTile lvl (x ?ex3 + w ?ex3 / 2) (y ?ex3 + h ?ex3 + 1) = Some t" by blast
  with False show ?thesis unfolding stepEnemy_def Let_def by simp
qed

lemma enemyAI_total:
  assumes "height lvl \<le> int (length (tiles lvl))"
  shows "\<exists>exs. enemyAI lvl dt es = Some exs"
proof (induction es)
  case Nil
  show ?case by simp
next
  case (Cons e es)
  from stepEnemy_total [OF assms] obtain ex where "stepEnemy lvl dt e = Some ex" by blast
  with Cons show ?case by auto
qed

text \<open>The step returns a state whenever the level has the rows its height declares; with a row
  missing, a probe inside the declared bounds throws.\<close>

lemma stepGame_total:
  assumes "height (level st) \<le> int (length (tiles (level st)))"
  shows "\<exists>st'. stepGame st ks dt = Some st'"
proof -
  from tryPlayerMoveX_total [OF assms] obtain q
    where q: "tryPlayerMoveX (level st) (playerInput ks dt (player st)) dt = Some q" by blast
  from enemyAI_total [OF assms] obtain es
    where es: "enemyAI (level st) dt (enemies st) = Some es" by blast
  let ?m = "updateAnim dt (tryPlayerMoveY (level st) q dt)"
  obtain m' es' sp d where ep: "enemyPass (lives st) [0..<length es] (?m, es, [], False) = (m', es', sp, d)"
    by (metis prod_cases4)
  obtain cs got inc where cp:
    "coinPass (getPlayerRect m') [0..<length (coins st)] (coins st, collectedCoins st, 0) = (cs, got, inc)"
    by (metis prod_cases3)
  from getTile_total [OF assms] obtain t
    where t: "getTile (level st) (x m' + w m' / 2) (y m' + h m' / 2) = Some t" by blast
  show ?thesis
    using q es ep cp t by (simp add: stepGame_def movePlayer_def interact_def Let_def)
qed

lemma stepGame_throws: "stepGame raggedFall noKeys (1 / 60) = None"
  by (simp add: raggedFall_def mkInitialGameStateOf_def findCoins_def scanLevel_def isEnemy_def
        isCoin_def mkEnemy_def mkCoin_def initialLives_def stepEval ragged_def upto.simps
        cong: let_weak_cong)

end
